theory Spec2Isabelle
  imports
    Main
    "HOL-Library.AList"
    "HOL-Library.Char_ord"
    "HOL-Library.List_Lexorder"
    "HOL-Library.Product_Lexorder"
begin

section \<open>Catalog comparison: the two comparison scripts\<close>

text \<open>
  The development embeds \<^verbatim>\<open>src/sqlserver/compare-databases.py\<close> (the unfiltered
  comparison) and \<^verbatim>\<open>src/sqlserver/compare-databases-filtered.py\<close> (the comparison
  of application objects only). Both scripts define functions of the same names; where the
  two bodies differ, the one of the filtered script carries the suffix \<open>_filtered\<close>.

  Strings are byte lists compared lexicographically, which is the order of Python's
  \<^verbatim>\<open>sorted\<close> on \<^verbatim>\<open>str\<close> (UTF-8 keeps the order of code points), and
  tuples are compared lexicographically as Python compares them.
\<close>

subsection \<open>Values, errors and the database seen through a cursor\<close>

datatype py_error = DatabaseError | TypeError

type_synonym 'a result = "py_error + 'a"

type_synonym ident = "string \<times> string"
type_synonym index_row = "string \<times> string \<times> string \<times> string \<times> bool \<times> bool"
type_synonym index_key = "string \<times> string \<times> string"
type_synonym constraint_key = "string \<times> string \<times> string \<times> string"

text \<open>
  A cursor is modelled by what its queries answer. Each catalog query either raises
  (\<open>Inl\<close>) or delivers its rows in the order of \<^verbatim>\<open>fetchall()\<close>; the count query
  of one table either raises or delivers \<^verbatim>\<open>COUNT(*)\<close>.
\<close>

record database =
  tables_query :: "ident list result"
  views_query :: "ident list result"
  procedures_query :: "ident list result"
  functions_query :: "ident list result"
  indexes_query :: "index_row list result"
  constraints_query :: "constraint_key list result"
  count_query :: "ident \<Rightarrow> int result"

datatype category = Table | View | Procedure | Function | Index | Constraint

datatype side = Source | Target

text \<open>
  The printed lines that depend on the data or on the path taken, one constructor per
  \<^verbatim>\<open>print_*\<close> call; banners, blank lines and the echo of the arguments are left out.
\<close>

datatype message =
    Section string
  | ConnectFailed side
  | Connected side
  | MissingCount category nat
  | Missing category ident
  | ExtraCount category nat
  | Extra category ident
  | AllMatch category nat
  | NoneInEither category
  | RowCountDiffCount nat
  | RowCountDiff ident "int option" "int option"
  | RowCountsMatch int
  | RowCountSkipped
  | MissingIndex index_key string "string list"
  | ExtraIndex index_key
  | ConstraintType string
  | MissingConstraint index_key
  | ExtraConstraint constraint_key
  | DifferencesFound
  | SummaryMissing category nat
  | Identical

subsection \<open>Printing and raising\<close>

text \<open>
  A computation yields the lines it printed and either the exception that ended it or its
  value.
\<close>

type_synonym 'a io = "message list \<times> 'a result"

definition return_io :: "'a \<Rightarrow> 'a io" where
  "return_io x = ([], Inr x)"

definition query :: "'a result \<Rightarrow> 'a io" where
  "query r = ([], r)"

definition print_all :: "message list \<Rightarrow> unit io" where
  "print_all ms = (ms, Inr ())"

definition bind_io :: "'a io \<Rightarrow> ('a \<Rightarrow> 'b io) \<Rightarrow> 'b io" where
  "bind_io m f =
     (case m of
        (out, Inl e) \<Rightarrow> (out, Inl e)
      | (out, Inr x) \<Rightarrow> (case f x of (out', r) \<Rightarrow> (out @ out', r)))"

definition then_io :: "unit io \<Rightarrow> 'b io \<Rightarrow> 'b io" where
  "then_io m n = bind_io m (\<lambda>_. n)"

subsection \<open>Catalog readers\<close>

definition EXCLUDED_TABLES :: "string set" where
  "EXCLUDED_TABLES = {''sysdiagrams''}"

definition EXCLUDED_PROCEDURES :: "string set" where
  "EXCLUDED_PROCEDURES =
     {''sp_alterdiagram'', ''sp_creatediagram'', ''sp_dropdiagram'',
      ''sp_helpdiagramdefinition'', ''sp_helpdiagrams'', ''sp_renamediagram'',
      ''sp_upgraddiagrams''}"

definition EXCLUDED_FUNCTIONS :: "string set" where
  "EXCLUDED_FUNCTIONS = {''fn_diagramobjects''}"

definition fetch :: "('a list \<Rightarrow> 'b list) \<Rightarrow> 'a list result \<Rightarrow> 'b list result" where
  "fetch comprehension executed =
     (case executed of Inl e \<Rightarrow> Inl e | Inr rows \<Rightarrow> Inr (comprehension rows))"

definition get_tables :: "database \<Rightarrow> ident list result" where
  "get_tables cursor = fetch (map (\<lambda>row. (fst row, snd row))) (tables_query cursor)"

definition get_views :: "database \<Rightarrow> ident list result" where
  "get_views cursor = fetch (map (\<lambda>row. (fst row, snd row))) (views_query cursor)"

definition get_procedures :: "database \<Rightarrow> ident list result" where
  "get_procedures cursor = fetch (map (\<lambda>row. (fst row, snd row))) (procedures_query cursor)"

definition get_functions :: "database \<Rightarrow> ident list result" where
  "get_functions cursor = fetch (map (\<lambda>row. (fst row, snd row))) (functions_query cursor)"

definition get_indexes :: "database \<Rightarrow> index_row list result" where
  "get_indexes cursor = fetch (map (\<lambda>row. row)) (indexes_query cursor)"

definition get_constraints :: "database \<Rightarrow> constraint_key list result" where
  "get_constraints cursor = fetch (map (\<lambda>row. row)) (constraints_query cursor)"

definition get_tables_filtered :: "database \<Rightarrow> ident list result" where
  "get_tables_filtered cursor =
     fetch (\<lambda>rows. map (\<lambda>row. (fst row, snd row)) (filter (\<lambda>row. snd row \<notin> EXCLUDED_TABLES) rows))
       (tables_query cursor)"

definition get_procedures_filtered :: "database \<Rightarrow> ident list result" where
  "get_procedures_filtered cursor =
     fetch (\<lambda>rows. map (\<lambda>row. (fst row, snd row)) (filter (\<lambda>row. snd row \<notin> EXCLUDED_PROCEDURES) rows))
       (procedures_query cursor)"

definition get_functions_filtered :: "database \<Rightarrow> ident list result" where
  "get_functions_filtered cursor =
     fetch (\<lambda>rows. map (\<lambda>row. (fst row, snd row)) (filter (\<lambda>row. snd row \<notin> EXCLUDED_FUNCTIONS) rows))
       (functions_query cursor)"

text \<open>
  \<^verbatim>\<open>get_table_row_counts\<close>: the body of the \<^verbatim>\<open>try\<close> stores the count, the bare
  \<^verbatim>\<open>except\<close> stores \<^verbatim>\<open>None\<close>. The dictionary is an association list in insertion
  order; assigning to a key that is present replaces its value in place.
\<close>

definition table_row_count :: "database \<Rightarrow> ident \<Rightarrow> int option" where
  "table_row_count cursor key =
     (case count_query cursor key of Inr count \<Rightarrow> Some count | Inl _ \<Rightarrow> None)"

definition get_table_row_counts :: "database \<Rightarrow> ident list \<Rightarrow> (ident \<times> int option) list" where
  "get_table_row_counts cursor tables =
     fold (\<lambda>key counts. AList.update key (table_row_count cursor key) counts) tables []"

text \<open>\<^verbatim>\<open>dict.get(key)\<close>: \<^verbatim>\<open>None\<close> for an absent key, the stored value otherwise.\<close>

definition dict_get :: "('k \<times> 'v option) list \<Rightarrow> 'k \<Rightarrow> 'v option" where
  "dict_get d key = (case map_of d key of None \<Rightarrow> None | Some v \<Rightarrow> v)"

text \<open>
  \<^verbatim>\<open>sum(values)\<close> adds the values to 0 from left to right; adding \<^verbatim>\<open>None\<close> to an
  integer raises \<^verbatim>\<open>TypeError\<close>.
\<close>

fun py_sum_from :: "int \<Rightarrow> int option list \<Rightarrow> int result" where
  "py_sum_from acc [] = Inr acc"
| "py_sum_from acc (None # vs) = Inl TypeError"
| "py_sum_from acc (Some v # vs) = py_sum_from (acc + v) vs"

definition py_sum :: "int option list \<Rightarrow> int result" where
  "py_sum vs = py_sum_from 0 vs"

subsection \<open>Comparing two lists\<close>

definition compare_lists :: "'a list \<Rightarrow> 'a list \<Rightarrow> string \<Rightarrow> 'a set \<times> 'a set" where
  "compare_lists source_list target_list item_name =
     (let source_set = set source_list;
          target_set = set target_list;
          missing_in_target = source_set - target_set;
          extra_in_target = target_set - source_set
      in (missing_in_target, extra_in_target))"

subsection \<open>The report of one category\<close>

text \<open>
  The block under \<^verbatim>\<open>if missing or extra:\<close>: the number of missing identities and
  one line for each in the order of \<^verbatim>\<open>sorted\<close>, then the same for the extra ones.
\<close>

definition report_differences :: "category \<Rightarrow> ident set \<Rightarrow> ident set \<Rightarrow> message list" where
  "report_differences cat missing extra =
     (if missing \<noteq> {}
      then MissingCount cat (card missing) # map (Missing cat) (sorted_list_of_set missing)
      else []) @
     (if extra \<noteq> {}
      then ExtraCount cat (card extra) # map (Extra cat) (sorted_list_of_set extra)
      else [])"

text \<open>
  Tables, views, procedures and functions are compared by one block that both scripts
  repeat with other texts: the heading, the two reads (source first), \<^verbatim>\<open>compare_lists\<close>
  and the report. \<open>matched\<close> is the \<^verbatim>\<open>else\<close> branch, given \<^verbatim>\<open>len(source_list)\<close>.
\<close>

definition compare_objects ::
  "string \<Rightarrow> category \<Rightarrow> string \<Rightarrow> ident list result \<Rightarrow> ident list result \<Rightarrow>
   (nat \<Rightarrow> message list) \<Rightarrow> (ident list \<times> ident list \<times> ident set \<times> ident set) io" where
  "compare_objects heading cat item_name source_read target_read matched =
     then_io (print_all [Section heading])
       (bind_io (query source_read) (\<lambda>source_list.
        bind_io (query target_read) (\<lambda>target_list.
          (case compare_lists source_list target_list item_name of
             (missing, extra) \<Rightarrow>
               then_io
                 (print_all
                    (if missing \<noteq> {} \<or> extra \<noteq> {}
                     then report_differences cat missing extra
                     else matched (length source_list)))
                 (return_io (source_list, target_list, missing, extra))))))"

subsection \<open>The filtered comparison\<close>

text \<open>The loop over \<^verbatim>\<open>source_tables\<close> that collects \<^verbatim>\<open>row_count_diffs\<close>.\<close>

definition collect_row_count_diffs ::
  "ident list \<Rightarrow> (ident \<times> int option) list \<Rightarrow> (ident \<times> int option) list \<Rightarrow>
   (ident \<times> int option \<times> int option) list" where
  "collect_row_count_diffs source_tables source_counts target_counts =
     fold (\<lambda>table_key row_count_diffs.
             (let source_count = dict_get source_counts table_key;
                  target_count = dict_get target_counts table_key
              in if source_count \<noteq> target_count
                 then row_count_diffs @ [(table_key, source_count, target_count)]
                 else row_count_diffs))
       source_tables []"

text \<open>
  The block \<^verbatim>\<open># Compare Row Counts\<close>; its value tells whether it set
  \<^verbatim>\<open>differences_found\<close>.
\<close>

definition compare_row_counts ::
  "database \<Rightarrow> database \<Rightarrow> ident list \<Rightarrow> ident list \<Rightarrow> ident set \<Rightarrow> ident set \<Rightarrow> bool io" where
  "compare_row_counts source_cursor target_cursor source_tables target_tables
       missing_tables extra_tables =
     (if missing_tables = {} \<and> extra_tables = {} then
        then_io (print_all [Section ''[2/5] Comparing Table Row Counts...''])
          (let source_counts = get_table_row_counts source_cursor source_tables;
               target_counts = get_table_row_counts target_cursor target_tables;
               row_count_diffs = collect_row_count_diffs source_tables source_counts target_counts
           in if row_count_diffs \<noteq> [] then
                then_io
                  (print_all
                     (RowCountDiffCount (length row_count_diffs) #
                      map (\<lambda>(table_key, source_count, target_count).
                             RowCountDiff table_key source_count target_count)
                        row_count_diffs))
                  (return_io True)
              else
                bind_io (query (py_sum (map snd source_counts))) (\<lambda>total_rows.
                  then_io (print_all [RowCountsMatch total_rows]) (return_io False)))
      else then_io (print_all [RowCountSkipped]) (return_io False))"

definition matched_or_none :: "category \<Rightarrow> nat \<Rightarrow> message list" where
  "matched_or_none cat n = (if n > 0 then [AllMatch cat n] else [NoneInEither cat])"

definition summary_filtered ::
  "bool \<Rightarrow> ident set \<Rightarrow> ident set \<Rightarrow> ident set \<Rightarrow> ident set \<Rightarrow> bool io" where
  "summary_filtered differences_found missing_tables missing_views missing_procs missing_funcs =
     (if differences_found then
        then_io
          (print_all
             (DifferencesFound #
              (if missing_tables \<noteq> {} then [SummaryMissing Table (card missing_tables)] else []) @
              (if missing_views \<noteq> {} then [SummaryMissing View (card missing_views)] else []) @
              (if missing_procs \<noteq> {} then [SummaryMissing Procedure (card missing_procs)] else []) @
              (if missing_funcs \<noteq> {} then [SummaryMissing Function (card missing_funcs)] else [])))
          (return_io False)
      else then_io (print_all [Identical]) (return_io True))"

text \<open>
  From \<^verbatim>\<open># Compare Views\<close> to the end of \<^verbatim>\<open>compare_databases\<close>;
  \<open>differences_found\<close> is the flag as the blocks before left it.
\<close>

definition compare_views_onwards_filtered ::
  "database \<Rightarrow> database \<Rightarrow> bool \<Rightarrow> ident set \<Rightarrow> bool io" where
  "compare_views_onwards_filtered source_cursor target_cursor differences_found missing_tables =
     bind_io
       (compare_objects ''[3/5] Comparing Views...'' View ''view''
          (get_views source_cursor) (get_views target_cursor) (\<lambda>n. [AllMatch View n]))
       (\<lambda>(source_views, target_views, missing_views, extra_views).
     bind_io
       (compare_objects ''[4/5] Comparing Application Stored Procedures...'' Procedure ''procedure''
          (get_procedures_filtered source_cursor) (get_procedures_filtered target_cursor)
          (matched_or_none Procedure))
       (\<lambda>(source_procs, target_procs, missing_procs, extra_procs).
     bind_io
       (compare_objects ''[5/5] Comparing Application Functions...'' Function ''function''
          (get_functions_filtered source_cursor) (get_functions_filtered target_cursor)
          (matched_or_none Function))
       (\<lambda>(source_funcs, target_funcs, missing_funcs, extra_funcs).
     summary_filtered
       (differences_found \<or> (missing_views \<noteq> {} \<or> extra_views \<noteq> {}) \<or>
        (missing_procs \<noteq> {} \<or> extra_procs \<noteq> {}) \<or> (missing_funcs \<noteq> {} \<or> extra_funcs \<noteq> {}))
       missing_tables missing_views missing_procs missing_funcs)))"

text \<open>
  \<^verbatim>\<open>compare_databases\<close> of the filtered script. The two arguments are what
  \<^verbatim>\<open>create_connection\<close> returned for the source and for the target database:
  \<^verbatim>\<open>None\<close> or a connection, whose cursor is the database.
\<close>

definition compare_databases_filtered :: "database option \<Rightarrow> database option \<Rightarrow> bool io" where
  "compare_databases_filtered source_conn target_conn =
     (case source_conn of
        None \<Rightarrow> then_io (print_all [ConnectFailed Source]) (return_io False)
      | Some source_cursor \<Rightarrow>
          then_io (print_all [Connected Source])
            (case target_conn of
               None \<Rightarrow> then_io (print_all [ConnectFailed Target]) (return_io False)
             | Some target_cursor \<Rightarrow>
                 then_io (print_all [Connected Target])
                   (bind_io
                      (compare_objects ''[1/5] Comparing Application Tables...'' Table ''table''
                         (get_tables_filtered source_cursor) (get_tables_filtered target_cursor)
                         (\<lambda>n. [AllMatch Table n]))
                      (\<lambda>(source_tables, target_tables, missing_tables, extra_tables).
                    bind_io
                      (compare_row_counts source_cursor target_cursor source_tables target_tables
                         missing_tables extra_tables)
                      (\<lambda>row_counts_differ.
                    compare_views_onwards_filtered source_cursor target_cursor
                      ((missing_tables \<noteq> {} \<or> extra_tables \<noteq> {}) \<or> row_counts_differ)
                      missing_tables)))))"

text \<open>
  \<^verbatim>\<open>main\<close> after the arguments are parsed: \<^verbatim>\<open>sys.exit(0 if success else 1)\<close>, or
  the exception that \<^verbatim>\<open>compare_databases\<close> let through.
\<close>

definition main_filtered :: "database option \<Rightarrow> database option \<Rightarrow> int result" where
  "main_filtered source_conn target_conn =
     (case snd (compare_databases_filtered source_conn target_conn) of
        Inl e \<Rightarrow> Inl e
      | Inr success \<Rightarrow> Inr (if success then 0 else 1))"

subsection \<open>The unfiltered comparison\<close>

text \<open>
  One line for a missing index, with the details of its first row among
  \<^verbatim>\<open>source_indexes\<close>; nothing is printed when \<^verbatim>\<open>details\<close> is empty.
\<close>

definition missing_index_line :: "index_row list \<Rightarrow> index_key \<Rightarrow> message list" where
  "missing_index_line source_indexes key =
     (case key of (schema, table, idx_name) \<Rightarrow>
        (let details =
               filter (\<lambda>idx. fst idx = schema \<and> fst (snd idx) = table \<and>
                             fst (snd (snd idx)) = idx_name) source_indexes
         in case details of
              [] \<Rightarrow> []
            | (_, _, _, idx_type, is_unique, is_pk) # _ \<Rightarrow>
                (let flags = (if is_pk then [''PRIMARY KEY''] else []) @
                             (if is_unique then [''UNIQUE''] else [])
                 in [MissingIndex (schema, table, idx_name) idx_type flags])))"

definition compare_indexes :: "database \<Rightarrow> database \<Rightarrow> (index_key set \<times> index_key set) io" where
  "compare_indexes source_cursor target_cursor =
     then_io (print_all [Section ''[5/6] Comparing Indexes...''])
       (bind_io (query (get_indexes source_cursor)) (\<lambda>source_indexes.
        bind_io (query (get_indexes target_cursor)) (\<lambda>target_indexes.
          (let source_idx_set =
                 set (map (\<lambda>idx. (fst idx, fst (snd idx), fst (snd (snd idx)))) source_indexes);
               target_idx_set =
                 set (map (\<lambda>idx. (fst idx, fst (snd idx), fst (snd (snd idx)))) target_indexes);
               missing_indexes = source_idx_set - target_idx_set;
               extra_indexes = target_idx_set - source_idx_set
           in then_io
                (print_all
                   (if missing_indexes \<noteq> {} \<or> extra_indexes \<noteq> {} then
                      (if missing_indexes \<noteq> {}
                       then MissingCount Index (card missing_indexes) #
                            concat (map (missing_index_line source_indexes)
                                      (sorted_list_of_set missing_indexes))
                       else []) @
                      (if extra_indexes \<noteq> {}
                       then ExtraCount Index (card extra_indexes) #
                            map ExtraIndex (sorted_list_of_set extra_indexes)
                       else [])
                    else [AllMatch Index (length source_indexes)]))
                (return_io (missing_indexes, extra_indexes))))))"

text \<open>
  \<^verbatim>\<open>by_type\<close> is a \<^verbatim>\<open>defaultdict(list)\<close>: the sorted missing constraints are
  appended to the list of their type. The lines then follow \<^verbatim>\<open>sorted(by_type.items())\<close>.
\<close>

definition group_by_type :: "constraint_key list \<Rightarrow> (string \<times> index_key list) list" where
  "group_by_type constraints =
     fold (\<lambda>c by_type.
             (case c of (schema, table, const_name, const_type) \<Rightarrow>
                AList.update const_type
                  ((case map_of by_type const_type of None \<Rightarrow> [] | Some items \<Rightarrow> items) @
                   [(schema, table, const_name)])
                  by_type))
       constraints []"

definition missing_constraint_lines :: "constraint_key set \<Rightarrow> message list" where
  "missing_constraint_lines missing_constraints =
     (let by_type = group_by_type (sorted_list_of_set missing_constraints)
      in concat (map (\<lambda>(const_type, items). ConstraintType const_type # map MissingConstraint items)
                   (sort by_type)))"

definition compare_constraints ::
  "database \<Rightarrow> database \<Rightarrow> (constraint_key set \<times> constraint_key set) io" where
  "compare_constraints source_cursor target_cursor =
     then_io (print_all [Section ''[6/6] Comparing Constraints...''])
       (bind_io (query (get_constraints source_cursor)) (\<lambda>source_constraints.
        bind_io (query (get_constraints target_cursor)) (\<lambda>target_constraints.
          (let source_const_set = set source_constraints;
               target_const_set = set target_constraints;
               missing_constraints = source_const_set - target_const_set;
               extra_constraints = target_const_set - source_const_set
           in then_io
                (print_all
                   (if missing_constraints \<noteq> {} \<or> extra_constraints \<noteq> {} then
                      (if missing_constraints \<noteq> {}
                       then MissingCount Constraint (card missing_constraints) #
                            missing_constraint_lines missing_constraints
                       else []) @
                      (if extra_constraints \<noteq> {}
                       then ExtraCount Constraint (card extra_constraints) #
                            map ExtraConstraint (sorted_list_of_set extra_constraints)
                       else [])
                    else [AllMatch Constraint (length source_constraints)]))
                (return_io (missing_constraints, extra_constraints))))))"

definition summary ::
  "bool \<Rightarrow> ident set \<Rightarrow> ident set \<Rightarrow> ident set \<Rightarrow> ident set \<Rightarrow> index_key set \<Rightarrow>
   constraint_key set \<Rightarrow> bool io" where
  "summary differences_found missing_tables missing_views missing_procs missing_funcs
       missing_indexes missing_constraints =
     (if differences_found then
        then_io
          (print_all
             (DifferencesFound #
              (if missing_tables \<noteq> {} then [SummaryMissing Table (card missing_tables)] else []) @
              (if missing_views \<noteq> {} then [SummaryMissing View (card missing_views)] else []) @
              (if missing_procs \<noteq> {} then [SummaryMissing Procedure (card missing_procs)] else []) @
              (if missing_funcs \<noteq> {} then [SummaryMissing Function (card missing_funcs)] else []) @
              (if missing_indexes \<noteq> {} then [SummaryMissing Index (card missing_indexes)] else []) @
              (if missing_constraints \<noteq> {}
               then [SummaryMissing Constraint (card missing_constraints)] else [])))
          (return_io False)
      else then_io (print_all [Identical]) (return_io True))"

text \<open>\<^verbatim>\<open>compare_databases\<close> of the unfiltered script, once both connections are open.\<close>

definition compare_connected :: "database \<Rightarrow> database \<Rightarrow> bool io" where
  "compare_connected source_cursor target_cursor =
     bind_io
       (compare_objects ''[1/6] Comparing Tables...'' Table ''table''
          (get_tables source_cursor) (get_tables target_cursor) (\<lambda>n. [AllMatch Table n]))
       (\<lambda>(source_tables, target_tables, missing_tables, extra_tables).
     bind_io
       (compare_objects ''[2/6] Comparing Views...'' View ''view''
          (get_views source_cursor) (get_views target_cursor) (\<lambda>n. [AllMatch View n]))
       (\<lambda>(source_views, target_views, missing_views, extra_views).
     bind_io
       (compare_objects ''[3/6] Comparing Stored Procedures...'' Procedure ''procedure''
          (get_procedures source_cursor) (get_procedures target_cursor)
          (\<lambda>n. [AllMatch Procedure n]))
       (\<lambda>(source_procs, target_procs, missing_procs, extra_procs).
     bind_io
       (compare_objects ''[4/6] Comparing Functions...'' Function ''function''
          (get_functions source_cursor) (get_functions target_cursor)
          (\<lambda>n. [AllMatch Function n]))
       (\<lambda>(source_funcs, target_funcs, missing_funcs, extra_funcs).
     bind_io (compare_indexes source_cursor target_cursor)
       (\<lambda>(missing_indexes, extra_indexes).
     bind_io (compare_constraints source_cursor target_cursor)
       (\<lambda>(missing_constraints, extra_constraints).
     summary
       ((missing_tables \<noteq> {} \<or> extra_tables \<noteq> {}) \<or> (missing_views \<noteq> {} \<or> extra_views \<noteq> {}) \<or>
        (missing_procs \<noteq> {} \<or> extra_procs \<noteq> {}) \<or> (missing_funcs \<noteq> {} \<or> extra_funcs \<noteq> {}) \<or>
        (missing_indexes \<noteq> {} \<or> extra_indexes \<noteq> {}) \<or>
        (missing_constraints \<noteq> {} \<or> extra_constraints \<noteq> {}))
       missing_tables missing_views missing_procs missing_funcs missing_indexes
       missing_constraints))))))"

definition compare_databases :: "database option \<Rightarrow> database option \<Rightarrow> bool io" where
  "compare_databases source_conn target_conn =
     (case source_conn of
        None \<Rightarrow> then_io (print_all [ConnectFailed Source]) (return_io False)
      | Some source_cursor \<Rightarrow>
          then_io (print_all [Connected Source])
            (case target_conn of
               None \<Rightarrow> then_io (print_all [ConnectFailed Target]) (return_io False)
             | Some target_cursor \<Rightarrow>
                 then_io (print_all [Connected Target])
                   (compare_connected source_cursor target_cursor)))"

definition main :: "database option \<Rightarrow> database option \<Rightarrow> int result" where
  "main source_conn target_conn =
     (case snd (compare_databases source_conn target_conn) of
        Inl e \<Rightarrow> Inl e
      | Inr success \<Rightarrow> Inr (if success then 0 else 1))"

text \<open>
  The lines that the block \<^verbatim>\<open># Compare Row Counts\<close> can print, and among them
  the lines that report one table whose counts differ.
\<close>

fun row_count_line :: "message \<Rightarrow> bool" where
  "row_count_line (Section heading) = (heading = ''[2/5] Comparing Table Row Counts...'')"
| "row_count_line (RowCountDiffCount _) = True"
| "row_count_line (RowCountDiff _ _ _) = True"
| "row_count_line (RowCountsMatch _) = True"
| "row_count_line RowCountSkipped = True"
| "row_count_line _ = False"

fun row_count_mismatch :: "message \<Rightarrow> bool" where
  "row_count_mismatch (RowCountDiff _ _ _) = True"
| "row_count_mismatch _ = False"

text \<open>Small catalogs for the scenarios of the specification.\<close>

definition empty_catalog :: database where
  "empty_catalog =
     \<lparr>tables_query = Inr [], views_query = Inr [], procedures_query = Inr [],
      functions_query = Inr [], indexes_query = Inr [], constraints_query = Inr [],
      count_query = (\<lambda>key. Inr 0)\<rparr>"

definition users_and_orders :: database where
  "users_and_orders =
     empty_catalog\<lparr>tables_query := Inr [(''dbo'', ''Orders''), (''dbo'', ''Users'')]\<rparr>"

definition users_only :: "int result \<Rightarrow> database" where
  "users_only count =
     empty_catalog\<lparr>tables_query := Inr [(''dbo'', ''Users'')], count_query := (\<lambda>key. count)\<rparr>"

text \<open>Catalogs whose count query raises, and catalogs whose enumeration raises.\<close>

definition with_view :: "database \<Rightarrow> database" where
  "with_view db = db\<lparr>views_query := Inr [(''dbo'', ''ActiveUsers'')]\<rparr>"

definition orders_and_uncounted_users :: database where
  "orders_and_uncounted_users =
     empty_catalog
       \<lparr>tables_query := Inr [(''dbo'', ''Orders''), (''dbo'', ''Users'')],
        count_query := (\<lambda>key. if key = (''dbo'', ''Users'') then Inl DatabaseError else Inr 5)\<rparr>"

definition unreadable_tables :: database where
  "unreadable_tables = empty_catalog\<lparr>tables_query := Inl DatabaseError\<rparr>"

definition unreadable_constraints :: database where
  "unreadable_constraints = empty_catalog\<lparr>constraints_query := Inl DatabaseError\<rparr>"

text \<open>
  The findings among the printed lines: one line for each missing object, extra object and
  row-count mismatch. Headings, counts and summary lines are not findings.
\<close>

fun finding :: "message \<Rightarrow> bool" where
  "finding (Missing _ _) = True"
| "finding (Extra _ _) = True"
| "finding (RowCountDiff _ _ _) = True"
| "finding (MissingIndex _ _ _) = True"
| "finding (ExtraIndex _) = True"
| "finding (MissingConstraint _) = True"
| "finding (ExtraConstraint _) = True"
| "finding _ = False"

definition two_constraints :: database where
  "two_constraints =
     empty_catalog
       \<lparr>constraints_query :=
          Inr [(''dbo'', ''A'', ''PK_A'', ''PRIMARY KEY''), (''dbo'', ''B'', ''CK_B'', ''CHECK'')]\<rparr>"

definition two_indexes :: database where
  "two_indexes =
     empty_catalog
       \<lparr>indexes_query :=
          Inr [(''dbo'', ''Users'', ''IX_Users_Name'', ''NONCLUSTERED'', False, False),
               (''dbo'', ''Users'', ''PK_Users'', ''CLUSTERED'', True, True)]\<rparr>"

definition with_diagram_procedure :: "database \<Rightarrow> database" where
  "with_diagram_procedure db =
     db\<lparr>procedures_query := Inr [(''dbo'', ''sp_creatediagram'')]\<rparr>"

definition mixed_case_procedures :: database where
  "mixed_case_procedures =
     empty_catalog
       \<lparr>procedures_query :=
          Inr [(''dbo'', ''SP_CreateDiagram''), (''dbo'', ''sp_creatediagram'')]\<rparr>"

section \<open>Properties\<close>

subsection \<open>What a computation printed and what it returned\<close>

lemma fst_bind_io:
  "fst (bind_io m f) = fst m @ (case snd m of Inl e \<Rightarrow> [] | Inr x \<Rightarrow> fst (f x))"
  by (cases m) (auto simp: bind_io_def split: sum.splits prod.splits)

lemma snd_bind_io:
  "snd (bind_io m f) = (case snd m of Inl e \<Rightarrow> Inl e | Inr x \<Rightarrow> snd (f x))"
  by (cases m) (auto simp: bind_io_def split: sum.splits prod.splits)

lemma fst_then_print: "fst (then_io (print_all ms) n) = ms @ fst n"
  by (simp add: then_io_def fst_bind_io print_all_def)

lemma snd_then_print: "snd (then_io (print_all ms) n) = snd n"
  by (simp add: then_io_def snd_bind_io print_all_def)

lemma fst_return_io: "fst (return_io x) = []"
  by (simp add: return_io_def)

lemma snd_return_io: "snd (return_io x) = Inr x"
  by (simp add: return_io_def)

lemmas io_simps =
  fst_bind_io snd_bind_io fst_then_print snd_then_print fst_return_io snd_return_io

lemma fst_compare_objects:
  "fst (compare_objects heading cat item_name source_read target_read matched) =
     Section heading #
     (case source_read of
        Inl e \<Rightarrow> []
      | Inr source_list \<Rightarrow>
          (case target_read of
             Inl e \<Rightarrow> []
           | Inr target_list \<Rightarrow>
               (if set source_list - set target_list \<noteq> {} \<or>
                   set target_list - set source_list \<noteq> {}
                then report_differences cat (set source_list - set target_list)
                       (set target_list - set source_list)
                else matched (length source_list))))"
  by (simp add: compare_objects_def io_simps query_def compare_lists_def Let_def
           split: sum.splits)

lemma snd_compare_objects:
  "snd (compare_objects heading cat item_name source_read target_read matched) =
     (case source_read of
        Inl e \<Rightarrow> Inl e
      | Inr source_list \<Rightarrow>
          (case target_read of
             Inl e \<Rightarrow> Inl e
           | Inr target_list \<Rightarrow>
               Inr (source_list, target_list, set source_list - set target_list,
                    set target_list - set source_list)))"
  by (simp add: compare_objects_def io_simps query_def compare_lists_def Let_def
           split: sum.splits)

subsection \<open>Reading the row counts\<close>

lemma map_of_fold_update:
  "map_of (fold (\<lambda>key counts. AList.update key (f key) counts) tables acc) k =
     (if k \<in> set tables then Some (f k) else map_of acc k)"
  by (induction tables arbitrary: acc) (auto simp: update_conv')

text \<open>
  C8. \<^verbatim>\<open>get_table_row_counts\<close> raises nothing and always returns the dictionary. It
  has an entry for exactly the tables it was given, and the entry of a table is decided by
  the count query of that table alone: the count when the query answered, \<^verbatim>\<open>None\<close>
  when it raised. A failing query of one table therefore leaves the entries of all other
  tables as they are.
\<close>

theorem row_count_failure_degrades_one_entry:
  "map_of (get_table_row_counts cursor tables) key =
     (if key \<in> set tables
      then Some (case count_query cursor key of Inr count \<Rightarrow> Some count | Inl e \<Rightarrow> None)
      else None)"
  by (simp add: get_table_row_counts_def map_of_fold_update table_row_count_def)

subsection \<open>Row counts in the filtered comparison\<close>

lemma compare_objects_message:
  assumes "m \<in> set (fst (compare_objects heading cat item_name source_read target_read matched))"
  shows "m = Section heading \<or> (\<exists>n. m = MissingCount cat n) \<or> (\<exists>n. m = ExtraCount cat n) \<or>
         (\<exists>k source_list target_list. m = Missing cat k \<and> source_read = Inr source_list \<and>
             target_read = Inr target_list \<and> k \<in> set source_list \<and> k \<notin> set target_list) \<or>
         (\<exists>k source_list target_list. m = Extra cat k \<and> source_read = Inr source_list \<and>
             target_read = Inr target_list \<and> k \<in> set target_list \<and> k \<notin> set source_list) \<or>
         (\<exists>n. m \<in> set (matched n))"
  using assms
  by (auto simp: fst_compare_objects report_differences_def split: sum.splits if_splits)

lemma summary_filtered_message:
  assumes "m \<in> set (fst (summary_filtered d mt mv mp mf))"
  shows "m = DifferencesFound \<or> m = Identical \<or> (\<exists>c n. m = SummaryMissing c n)"
  using assms by (auto simp: summary_filtered_def io_simps split: if_splits)

lemma views_onwards_filtered_log:
  "set (fst (compare_views_onwards_filtered s t d mt)) \<subseteq>
     set (fst (compare_objects ''[3/5] Comparing Views...'' View ''view''
          (get_views s) (get_views t) (\<lambda>n. [AllMatch View n]))) \<union>
     set (fst (compare_objects ''[4/5] Comparing Application Stored Procedures...'' Procedure ''procedure''
          (get_procedures_filtered s) (get_procedures_filtered t)
          (matched_or_none Procedure))) \<union>
     set (fst (compare_objects ''[5/5] Comparing Application Functions...'' Function ''function''
          (get_functions_filtered s) (get_functions_filtered t)
          (matched_or_none Function))) \<union>
     {m. m = DifferencesFound \<or> m = Identical \<or> (\<exists>c n. m = SummaryMissing c n)}"
  unfolding compare_views_onwards_filtered_def
  by (auto simp: io_simps snd_compare_objects split: sum.splits
        dest: summary_filtered_message)

lemma views_onwards_filtered_no_row_count_line:
  "m \<in> set (fst (compare_views_onwards_filtered s t d mt)) \<Longrightarrow> \<not> row_count_line m"
  using views_onwards_filtered_log [of s t d mt]
  by (auto dest!: compare_objects_message simp: matched_or_none_def split: if_splits)

lemma collect_row_count_diffs_fold:
  "fold (\<lambda>table_key row_count_diffs.
             (let source_count = dict_get source_counts table_key;
                  target_count = dict_get target_counts table_key
              in if source_count \<noteq> target_count
                 then row_count_diffs @ [(table_key, source_count, target_count)]
                 else row_count_diffs)) tables acc =
   acc @ map (\<lambda>k. (k, dict_get source_counts k, dict_get target_counts k))
           (filter (\<lambda>k. dict_get source_counts k \<noteq> dict_get target_counts k) tables)"
  by (induction tables arbitrary: acc) (auto simp: Let_def)

lemma collect_row_count_diffs_eq:
  "collect_row_count_diffs tables source_counts target_counts =
     map (\<lambda>k. (k, dict_get source_counts k, dict_get target_counts k))
       (filter (\<lambda>k. dict_get source_counts k \<noteq> dict_get target_counts k) tables)"
  by (simp add: collect_row_count_diffs_def collect_row_count_diffs_fold)

lemma dict_get_row_counts:
  "dict_get (get_table_row_counts cursor tables) k =
     (if k \<in> set tables then table_row_count cursor k else None)"
  by (simp add: dict_get_def get_table_row_counts_def map_of_fold_update)

lemma row_count_diffs_of_matching_tables:
  assumes "set source_tables \<subseteq> set target_tables"
  shows "collect_row_count_diffs source_tables
           (get_table_row_counts source_cursor source_tables)
           (get_table_row_counts target_cursor target_tables) =
         map (\<lambda>k. (k, table_row_count source_cursor k, table_row_count target_cursor k))
           (filter (\<lambda>k. table_row_count source_cursor k \<noteq> table_row_count target_cursor k)
              source_tables)"
proof -
  have "k \<in> set source_tables \<Longrightarrow> k \<in> set target_tables" for k
    using assms by auto
  then show ?thesis
    unfolding collect_row_count_diffs_eq
    by (auto simp: dict_get_row_counts intro!: map_cong filter_cong)
qed

lemma fst_compare_row_counts:
  "fst (compare_row_counts s t st tt mt et) =
     (if mt = {} \<and> et = {} then
        Section ''[2/5] Comparing Table Row Counts...'' #
        (let diffs = collect_row_count_diffs st (get_table_row_counts s st) (get_table_row_counts t tt)
         in if diffs \<noteq> [] then
              RowCountDiffCount (length diffs) #
              map (\<lambda>(table_key, source_count, target_count).
                     RowCountDiff table_key source_count target_count) diffs
            else (case py_sum (map snd (get_table_row_counts s st)) of
                    Inl e \<Rightarrow> [] | Inr total_rows \<Rightarrow> [RowCountsMatch total_rows]))
      else [RowCountSkipped])"
  by (simp add: compare_row_counts_def io_simps query_def Let_def split: sum.splits)

lemma snd_compare_row_counts:
  "snd (compare_row_counts s t st tt mt et) =
     (if mt = {} \<and> et = {} then
        (if collect_row_count_diffs st (get_table_row_counts s st) (get_table_row_counts t tt) \<noteq> []
         then Inr True
         else (case py_sum (map snd (get_table_row_counts s st)) of
                 Inl e \<Rightarrow> Inl e | Inr total_rows \<Rightarrow> Inr False))
      else Inr False)"
  by (simp add: compare_row_counts_def io_simps query_def Let_def split: sum.splits)

lemma compare_row_counts_only_row_count_lines:
  "m \<in> set (fst (compare_row_counts s t st tt mt et)) \<Longrightarrow> row_count_line m"
  by (auto simp: fst_compare_row_counts Let_def split: if_splits sum.splits)

lemma filtered_log:
  assumes "get_tables_filtered s = Inr st" and "get_tables_filtered t = Inr tt"
  shows "fst (compare_databases_filtered (Some s) (Some t)) =
     [Connected Source, Connected Target] @
     fst (compare_objects ''[1/5] Comparing Application Tables...'' Table ''table''
            (Inr st) (Inr tt) (\<lambda>n. [AllMatch Table n])) @
     fst (compare_row_counts s t st tt (set st - set tt) (set tt - set st)) @
     (case snd (compare_row_counts s t st tt (set st - set tt) (set tt - set st)) of
        Inl e \<Rightarrow> []
      | Inr d \<Rightarrow> fst (compare_views_onwards_filtered s t
                      ((set st - set tt \<noteq> {} \<or> set tt - set st \<noteq> {}) \<or> d) (set st - set tt)))"
  by (auto simp: compare_databases_filtered_def io_simps assms snd_compare_objects
        split: sum.splits)

lemma filter_row_count_line_filtered_log:
  assumes "get_tables_filtered s = Inr st" and "get_tables_filtered t = Inr tt"
  shows "filter row_count_line (fst (compare_databases_filtered (Some s) (Some t))) =
         fst (compare_row_counts s t st tt (set st - set tt) (set tt - set st))"
proof -
  have a: "filter row_count_line
             (fst (compare_objects ''[1/5] Comparing Application Tables...'' Table ''table''
                (Inr st) (Inr tt) (\<lambda>n. [AllMatch Table n]))) = []"
    by (auto simp: filter_empty_conv dest!: compare_objects_message)
  have b: "filter row_count_line (fst (compare_row_counts s t st tt mt et)) =
           fst (compare_row_counts s t st tt mt et)" for mt et
    by (auto simp: filter_id_conv dest: compare_row_counts_only_row_count_lines)
  have c: "filter row_count_line (fst (compare_views_onwards_filtered s t d mt)) = []" for d mt
    by (auto simp: filter_empty_conv dest: views_onwards_filtered_no_row_count_line)
  show ?thesis
    by (simp add: filtered_log [OF assms] a b c split: sum.splits)
qed

text \<open>
  C5. When the table lists match, the mismatch lines of the filtered comparison are, in
  the order of \<^verbatim>\<open>source_tables\<close>, exactly the tables whose source count and target
  count are unequal, each with both counts. A count is \<^verbatim>\<open>None\<close> when its query
  raised, and \<^verbatim>\<open>None\<close> is unequal to every number, 0 included.
\<close>

theorem row_count_mismatches_in_source_order:
  assumes "get_tables_filtered source_cursor = Inr source_tables"
    and "get_tables_filtered target_cursor = Inr target_tables"
    and "compare_lists source_tables target_tables ''table'' = ({}, {})"
  shows "filter row_count_mismatch
           (fst (compare_databases_filtered (Some source_cursor) (Some target_cursor))) =
         map (\<lambda>table_key. RowCountDiff table_key (table_row_count source_cursor table_key)
                            (table_row_count target_cursor table_key))
           (filter (\<lambda>table_key. table_row_count source_cursor table_key \<noteq>
                                 table_row_count target_cursor table_key)
              source_tables)"
proof -
  let ?log = "fst (compare_databases_filtered (Some source_cursor) (Some target_cursor))"
  have sets: "set source_tables - set target_tables = {}" "set target_tables - set source_tables = {}"
    using assms(3) by (auto simp: compare_lists_def Let_def)
  then have sub: "set source_tables \<subseteq> set target_tables" by auto
  have "filter row_count_mismatch ?log = filter row_count_mismatch (filter row_count_line ?log)"
  proof -
    have "row_count_mismatch m \<Longrightarrow> row_count_line m" for m by (cases m) auto
    then show ?thesis by (auto simp: filter_filter intro!: filter_cong)
  qed
  also have "\<dots> = filter row_count_mismatch
       (fst (compare_row_counts source_cursor target_cursor source_tables target_tables {} {}))"
    using filter_row_count_line_filtered_log [OF assms(1,2)] by (simp add: sets)
  also have "\<dots> =
         map (\<lambda>table_key. RowCountDiff table_key (table_row_count source_cursor table_key)
                            (table_row_count target_cursor table_key))
           (filter (\<lambda>table_key. table_row_count source_cursor table_key \<noteq>
                                 table_row_count target_cursor table_key)
              source_tables)"
    by (auto simp: fst_compare_row_counts row_count_diffs_of_matching_tables [OF sub] Let_def
          filter_map o_def split: sum.splits)
  finally show ?thesis .
qed

theorem row_count_mismatches_in_source_order_witness:
  "filter row_count_mismatch
     (fst (compare_databases_filtered (Some (users_only (Inl DatabaseError)))
        (Some (users_only (Inr 0))))) =
   [RowCountDiff (''dbo'', ''Users'') None (Some 0)]"
proof -
  have t: "get_tables_filtered (users_only c) = Inr [(''dbo'', ''Users'')]" for c
    by (simp add: get_tables_filtered_def fetch_def users_only_def empty_catalog_def
          EXCLUDED_TABLES_def)
  have e: "compare_lists [(''dbo'', ''Users'')] [(''dbo'', ''Users'')] ''table'' = ({}, {})"
    by (auto simp: compare_lists_def Let_def)
  show ?thesis
    using row_count_mismatches_in_source_order [OF t t e, of "Inl DatabaseError" "Inr 0"]
    by (simp add: table_row_count_def users_only_def)
qed

subsection \<open>The verdict\<close>

lemma py_sum_from_eq:
  "py_sum_from acc vs =
     (if None \<in> set vs then Inl TypeError else Inr (acc + sum_list (map the vs)))"
  by (induction acc vs rule: py_sum_from.induct) auto

lemma distinct_keys_fold_update:
  "distinct (map fst acc) \<Longrightarrow>
   distinct (map fst (fold (\<lambda>key counts. AList.update key (f key) counts) tables acc))"
  by (induction tables arbitrary: acc) (auto simp: distinct_update)

lemma set_get_table_row_counts:
  "set (get_table_row_counts cursor tables) = (\<lambda>k. (k, table_row_count cursor k)) ` set tables"
proof -
  have d: "distinct (map fst (get_table_row_counts cursor tables))"
    unfolding get_table_row_counts_def by (rule distinct_keys_fold_update) simp
  have m: "map_of (get_table_row_counts cursor tables) k =
           (if k \<in> set tables then Some (table_row_count cursor k) else None)" for k
    by (simp add: get_table_row_counts_def map_of_fold_update)
  have "(k, v) \<in> set (get_table_row_counts cursor tables) \<longleftrightarrow>
        k \<in> set tables \<and> v = table_row_count cursor k" for k v
    using map_of_eq_Some_iff [OF d, of k v] by (auto simp: m split: if_splits)
  then show ?thesis by auto
qed

lemma py_sum_row_counts:
  "py_sum (map snd (get_table_row_counts cursor tables)) =
     (if \<exists>k \<in> set tables. table_row_count cursor k = None then Inl TypeError
      else Inr (sum_list (map the (map snd (get_table_row_counts cursor tables)))))"
proof -
  have "None \<in> set (map snd (get_table_row_counts cursor tables)) \<longleftrightarrow>
        (\<exists>k \<in> set tables. table_row_count cursor k = None)"
    by (force simp: set_get_table_row_counts image_iff)
  then show ?thesis by (simp add: py_sum_def py_sum_from_eq)
qed

lemma snd_summary_filtered: "snd (summary_filtered d mt mv mp mf) = Inr (\<not> d)"
  by (simp add: summary_filtered_def io_simps)

lemma snd_summary: "snd (summary d mt mv mp mf mi mc) = Inr (\<not> d)"
  by (simp add: summary_def io_simps)

lemma snd_views_onwards_filtered:
  assumes "get_views s = Inr sv" "get_views t = Inr tv"
    and "get_procedures_filtered s = Inr sp" "get_procedures_filtered t = Inr tp"
    and "get_functions_filtered s = Inr sf" "get_functions_filtered t = Inr tf"
  shows "snd (compare_views_onwards_filtered s t d mt) =
         Inr (\<not> d \<and> set sv = set tv \<and> set sp = set tp \<and> set sf = set tf)"
  by (auto simp: compare_views_onwards_filtered_def io_simps snd_compare_objects assms
        snd_summary_filtered)

lemma snd_compare_row_counts_matching:
  assumes "set st \<subseteq> set tt"
  shows "snd (compare_row_counts s t st tt {} {}) =
     (if \<exists>k \<in> set st. table_row_count s k \<noteq> table_row_count t k then Inr True
      else if \<exists>k \<in> set st. table_row_count s k = None then Inl TypeError
      else Inr False)"
  by (auto simp: snd_compare_row_counts row_count_diffs_of_matching_tables [OF assms]
        py_sum_row_counts filter_empty_conv)

lemma filtered_verdict:
  assumes "get_tables_filtered s = Inr st" "get_tables_filtered t = Inr tt"
    and "get_views s = Inr sv" "get_views t = Inr tv"
    and "get_procedures_filtered s = Inr sp" "get_procedures_filtered t = Inr tp"
    and "get_functions_filtered s = Inr sf" "get_functions_filtered t = Inr tf"
  shows "snd (compare_databases_filtered (Some s) (Some t)) =
     (if set st = set tt \<and> (\<forall>k \<in> set st. table_row_count s k = table_row_count t k) \<and>
         (\<exists>k \<in> set st. table_row_count s k = None)
      then Inl TypeError
      else Inr (set st = set tt \<and> (\<forall>k \<in> set st. table_row_count s k = table_row_count t k) \<and>
                set sv = set tv \<and> set sp = set tp \<and> set sf = set tf))"
proof (cases "set st = set tt")
  case True
  then have "set st \<subseteq> set tt" by simp
  with True show ?thesis
    by (auto simp: compare_databases_filtered_def io_simps snd_compare_objects assms(1,2)
          snd_compare_row_counts_matching snd_views_onwards_filtered [OF assms(3-8)])
next
  case False
  then have "set st - set tt \<noteq> {} \<or> set tt - set st \<noteq> {}" by auto
  then show ?thesis
    using False
    by (auto simp: compare_databases_filtered_def io_simps snd_compare_objects assms(1,2)
          snd_compare_row_counts snd_views_onwards_filtered [OF assms(3-8)])
qed

lemma filtered_result:
  assumes "get_tables_filtered s = Inr st" and "get_tables_filtered t = Inr tt"
  shows "snd (compare_databases_filtered (Some s) (Some t)) =
     (case snd (compare_row_counts s t st tt (set st - set tt) (set tt - set st)) of
        Inl e \<Rightarrow> Inl e
      | Inr d \<Rightarrow> snd (compare_views_onwards_filtered s t
                      ((set st - set tt \<noteq> {} \<or> set tt - set st \<noteq> {}) \<or> d) (set st - set tt)))"
  by (auto simp: compare_databases_filtered_def io_simps assms snd_compare_objects
        split: sum.splits)

lemma snd_compare_indexes:
  "snd (compare_indexes s t) =
     (case get_indexes s of
        Inl e \<Rightarrow> Inl e
      | Inr si \<Rightarrow>
          (case get_indexes t of
             Inl e \<Rightarrow> Inl e
           | Inr ti \<Rightarrow>
               Inr (set (map (\<lambda>idx. (fst idx, fst (snd idx), fst (snd (snd idx)))) si) -
                    set (map (\<lambda>idx. (fst idx, fst (snd idx), fst (snd (snd idx)))) ti),
                    set (map (\<lambda>idx. (fst idx, fst (snd idx), fst (snd (snd idx)))) ti) -
                    set (map (\<lambda>idx. (fst idx, fst (snd idx), fst (snd (snd idx)))) si))))"
  by (simp add: compare_indexes_def io_simps query_def Let_def split: sum.splits)

lemma snd_compare_constraints:
  "snd (compare_constraints s t) =
     (case get_constraints s of
        Inl e \<Rightarrow> Inl e
      | Inr sc \<Rightarrow>
          (case get_constraints t of
             Inl e \<Rightarrow> Inl e
           | Inr tc \<Rightarrow> Inr (set sc - set tc, set tc - set sc)))"
  by (simp add: compare_constraints_def io_simps query_def Let_def split: sum.splits)

lemma unfiltered_verdict:
  assumes "get_tables s = Inr st" "get_tables t = Inr tt"
    and "get_views s = Inr sv" "get_views t = Inr tv"
    and "get_procedures s = Inr sp" "get_procedures t = Inr tp"
    and "get_functions s = Inr sf" "get_functions t = Inr tf"
    and "get_indexes s = Inr si" "get_indexes t = Inr ti"
    and "get_constraints s = Inr sc" "get_constraints t = Inr tc"
  shows "snd (compare_databases (Some s) (Some t)) =
         Inr (set st = set tt \<and> set sv = set tv \<and> set sp = set tp \<and> set sf = set tf \<and>
              (\<lambda>idx. (fst idx, fst (snd idx), fst (snd (snd idx)))) ` set si =
              (\<lambda>idx. (fst idx, fst (snd idx), fst (snd (snd idx)))) ` set ti \<and>
              set sc = set tc)"
proof -
  define a where "a = (\<lambda>idx::index_row. (fst idx, fst (snd idx), fst (snd (snd idx)))) ` set si"
  define b where "b = (\<lambda>idx::index_row. (fst idx, fst (snd idx), fst (snd (snd idx)))) ` set ti"
  have "snd (compare_databases (Some s) (Some t)) =
        Inr (\<not> ((set st - set tt \<noteq> {} \<or> set tt - set st \<noteq> {}) \<or>
                 (set sv - set tv \<noteq> {} \<or> set tv - set sv \<noteq> {}) \<or>
                 (set sp - set tp \<noteq> {} \<or> set tp - set sp \<noteq> {}) \<or>
                 (set sf - set tf \<noteq> {} \<or> set tf - set sf \<noteq> {}) \<or>
                 (a - b \<noteq> {} \<or> b - a \<noteq> {}) \<or>
                 (set sc - set tc \<noteq> {} \<or> set tc - set sc \<noteq> {})))"
    unfolding a_def b_def
    by (simp add: compare_databases_def compare_connected_def io_simps snd_compare_objects
          snd_compare_indexes snd_compare_constraints snd_summary assms)
  also have "\<dots> = Inr (set st = set tt \<and> set sv = set tv \<and> set sp = set tp \<and> set sf = set tf \<and>
                       a = b \<and> set sc = set tc)"
    by auto
  finally show ?thesis unfolding a_def b_def .
qed

subsection \<open>Counts that are missing on both sides\<close>

lemma null_counts_raise:
  assumes "get_tables_filtered s = Inr st"
    and "get_tables_filtered t = Inr tt"
    and "set st = set tt"
    and "\<forall>k \<in> set st. table_row_count s k = table_row_count t k"
    and "k \<in> set st"
    and "table_row_count s k = None"
  shows "snd (compare_databases_filtered (Some s) (Some t)) = Inl TypeError"
proof -
  have sets: "set st - set tt = {}" "set tt - set st = {}"
    using assms(3) by auto
  have sub: "set st \<subseteq> set tt"
    using assms(3) by simp
  have "snd (compare_row_counts s t st tt {} {}) = Inl TypeError"
    using assms(4,5,6) by (auto simp: snd_compare_row_counts_matching [OF sub])
  then show ?thesis
    by (simp add: filtered_result [OF assms(1,2)] sets)
qed

lemma compare_lists_empty_iff:
  "compare_lists xs ys item_name = ({}, {}) \<longleftrightarrow> set xs = set ys"
  by (auto simp: compare_lists_def Let_def)

text \<open>
  C10. The claim is that the filtered comparison reaches its verdict whenever the table
  lists match and the counts are pairwise equal, a count missing on both sides included.
  The code does not: with no mismatch collected it evaluates
  \<^verbatim>\<open>sum(source_counts.values())\<close>, and one \<^verbatim>\<open>None\<close> among the values raises
  \<^verbatim>\<open>TypeError\<close>, which neither \<^verbatim>\<open>compare_databases\<close> nor \<^verbatim>\<open>main\<close> catches.
\<close>

theorem matching_null_counts_raise:
  assumes "get_tables_filtered source_cursor = Inr source_tables"
    and "get_tables_filtered target_cursor = Inr target_tables"
    and "compare_lists source_tables target_tables ''table'' = ({}, {})"
    and "\<forall>key \<in> set source_tables.
           table_row_count source_cursor key = table_row_count target_cursor key"
    and "key \<in> set source_tables"
    and "table_row_count source_cursor key = None"
  shows "snd (compare_databases_filtered (Some source_cursor) (Some target_cursor)) = Inl TypeError \<and>
         main_filtered (Some source_cursor) (Some target_cursor) = Inl TypeError"
proof -
  have "set source_tables = set target_tables"
    using assms(3) by (simp add: compare_lists_empty_iff)
  from null_counts_raise [OF assms(1,2) this assms(4,5,6)]
  show ?thesis by (simp add: main_filtered_def)
qed

theorem matching_null_counts_raise_witness:
  "snd (compare_databases_filtered (Some orders_and_uncounted_users)
          (Some orders_and_uncounted_users)) = Inl TypeError \<and>
   main_filtered (Some orders_and_uncounted_users) (Some orders_and_uncounted_users) =
     Inl TypeError"
proof -
  have t: "get_tables_filtered orders_and_uncounted_users =
           Inr [(''dbo'', ''Orders''), (''dbo'', ''Users'')]"
    by (simp add: get_tables_filtered_def fetch_def orders_and_uncounted_users_def
          empty_catalog_def EXCLUDED_TABLES_def)
  have e: "compare_lists [(''dbo'', ''Orders''), (''dbo'', ''Users'')]
             [(''dbo'', ''Orders''), (''dbo'', ''Users'')] ''table'' = ({}, {})"
    by (auto simp: compare_lists_def Let_def)
  have k: "(''dbo'', ''Users'') \<in> set [(''dbo'', ''Orders''), (''dbo'', ''Users'')]"
    by simp
  have n: "table_row_count orders_and_uncounted_users (''dbo'', ''Users'') = None"
    by (simp add: table_row_count_def orders_and_uncounted_users_def)
  show ?thesis
    using matching_null_counts_raise [OF t t e _ k n] by simp
qed

text \<open>
  C9. A catalog with a table whose count query raises, compared with itself by the
  filtered comparison: the table lists match, the heading of the row-count block is
  printed, and the comparison ends with \<^verbatim>\<open>TypeError\<close> instead of the verdict Pass.
\<close>

theorem self_comparison_with_null_count:
  assumes "get_tables_filtered cursor = Inr tables"
    and "key \<in> set tables"
    and "count_query cursor key = Inl e"
  shows "snd (compare_databases_filtered (Some cursor) (Some cursor)) = Inl TypeError"
proof -
  have "table_row_count cursor key = None"
    using assms(3) by (simp add: table_row_count_def)
  with null_counts_raise [OF assms(1) assms(1) _ _ assms(2)] show ?thesis
    by simp
qed

theorem self_comparison_with_null_count_witness:
  "compare_databases_filtered (Some (users_only (Inl DatabaseError)))
     (Some (users_only (Inl DatabaseError))) =
   ([Connected Source, Connected Target, Section ''[1/5] Comparing Application Tables...'',
     AllMatch Table 1, Section ''[2/5] Comparing Table Row Counts...''],
    Inl TypeError)"
proof -
  have t: "get_tables_filtered (users_only (Inl DatabaseError)) = Inr [(''dbo'', ''Users'')]"
    by (simp add: get_tables_filtered_def fetch_def users_only_def empty_catalog_def
          EXCLUDED_TABLES_def)
  have k: "(''dbo'', ''Users'') \<in> set [(''dbo'', ''Users'')]"
    by simp
  have c: "count_query (users_only (Inl DatabaseError)) (''dbo'', ''Users'') = Inl DatabaseError"
    by (simp add: users_only_def)
  have "fst (compare_databases_filtered (Some (users_only (Inl DatabaseError)))
          (Some (users_only (Inl DatabaseError)))) =
        [Connected Source, Connected Target, Section ''[1/5] Comparing Application Tables...'',
         AllMatch Table 1, Section ''[2/5] Comparing Table Row Counts...'']"
    by code_simp
  with self_comparison_with_null_count [OF t k c] show ?thesis
    by (simp add: prod_eq_iff)
qed

text \<open>
  C3. The source has a view that the target lacks, so the claim asks for the verdict Fail;
  the table lists match, the counts are pairwise equal and one of them is missing on both
  sides. The filtered comparison ends with
  \<^verbatim>\<open>TypeError\<close> in the row-count block, before the views are read.
\<close>

theorem missing_view_with_null_counts:
  assumes "get_tables_filtered source_cursor = Inr source_tables"
    and "get_tables_filtered target_cursor = Inr target_tables"
    and "compare_lists source_tables target_tables ''table'' = ({}, {})"
    and "\<forall>key \<in> set source_tables.
           table_row_count source_cursor key = table_row_count target_cursor key"
    and "key \<in> set source_tables"
    and "table_row_count source_cursor key = None"
    and "get_views source_cursor = Inr source_views"
    and "get_views target_cursor = Inr target_views"
    and "compare_lists source_views target_views ''view'' = (missing_views, extra_views)"
    and "missing_views \<noteq> {}"
  shows "snd (compare_databases_filtered (Some source_cursor) (Some target_cursor)) = Inl TypeError"
proof -
  have "set source_tables = set target_tables"
    using assms(3) by (simp add: compare_lists_empty_iff)
  from null_counts_raise [OF assms(1,2) this assms(4,5,6)] show ?thesis .
qed

theorem missing_view_with_null_counts_witness:
  "snd (compare_databases_filtered (Some (with_view (users_only (Inl DatabaseError))))
          (Some (users_only (Inl DatabaseError)))) = Inl TypeError"
proof -
  have s: "get_tables_filtered (with_view (users_only (Inl DatabaseError))) =
           Inr [(''dbo'', ''Users'')]"
    by (simp add: get_tables_filtered_def fetch_def users_only_def empty_catalog_def
          with_view_def EXCLUDED_TABLES_def)
  have t: "get_tables_filtered (users_only (Inl DatabaseError)) = Inr [(''dbo'', ''Users'')]"
    by (simp add: get_tables_filtered_def fetch_def users_only_def empty_catalog_def
          EXCLUDED_TABLES_def)
  have e: "compare_lists [(''dbo'', ''Users'')] [(''dbo'', ''Users'')] ''table'' = ({}, {})"
    by (auto simp: compare_lists_def Let_def)
  have c: "\<forall>key \<in> set [(''dbo'', ''Users'')].
             table_row_count (with_view (users_only (Inl DatabaseError))) key =
             table_row_count (users_only (Inl DatabaseError)) key"
    by (simp add: table_row_count_def users_only_def with_view_def)
  have k: "(''dbo'', ''Users'') \<in> set [(''dbo'', ''Users'')]"
    by simp
  have n: "table_row_count (with_view (users_only (Inl DatabaseError))) (''dbo'', ''Users'') = None"
    by (simp add: table_row_count_def users_only_def with_view_def)
  have sv: "get_views (with_view (users_only (Inl DatabaseError))) = Inr [(''dbo'', ''ActiveUsers'')]"
    by (simp add: get_views_def fetch_def with_view_def)
  have tv: "get_views (users_only (Inl DatabaseError)) = Inr []"
    by (simp add: get_views_def fetch_def users_only_def empty_catalog_def)
  have v: "compare_lists [(''dbo'', ''ActiveUsers'')] [] ''view'' = ({(''dbo'', ''ActiveUsers'')}, {})"
    by (auto simp: compare_lists_def Let_def)
  have m: "{(''dbo'', ''ActiveUsers'')} \<noteq> ({} :: ident set)"
    by simp
  show ?thesis
    using missing_view_with_null_counts [OF s t e c k n sv tv v m] .
qed

subsection \<open>Fatal errors\<close>

text \<open>
  C6, as stated, fails: a connection that could not be opened and a comparison that found a
  missing table both make \<^verbatim>\<open>compare_databases\<close> return \<^verbatim>\<open>False\<close> and
  \<^verbatim>\<open>main\<close> exit with status 1, in both scripts.
\<close>

theorem connection_failure_same_result:
  "snd (compare_databases_filtered None (Some empty_catalog)) = Inr False \<and>
   snd (compare_databases_filtered (Some users_and_orders) (Some (users_only (Inr 100)))) =
     Inr False \<and>
   main_filtered None (Some empty_catalog) = Inr 1 \<and>
   main_filtered (Some users_and_orders) (Some (users_only (Inr 100))) = Inr 1 \<and>
   snd (compare_databases (Some empty_catalog) None) = Inr False \<and>
   snd (compare_databases (Some users_and_orders) (Some (users_only (Inr 100)))) = Inr False \<and>
   main (Some empty_catalog) None = Inr 1 \<and>
   main (Some users_and_orders) (Some (users_only (Inr 100))) = Inr 1"
  by code_simp

lemma filtered_returns_only_if_reads_succeed:
  assumes "snd (compare_databases_filtered (Some s) (Some t)) = Inr v"
  shows "(\<exists>r. tables_query s = Inr r) \<and> (\<exists>r. tables_query t = Inr r) \<and>
         (\<exists>r. views_query s = Inr r) \<and> (\<exists>r. views_query t = Inr r) \<and>
         (\<exists>r. procedures_query s = Inr r) \<and> (\<exists>r. procedures_query t = Inr r) \<and>
         (\<exists>r. functions_query s = Inr r) \<and> (\<exists>r. functions_query t = Inr r)"
  using assms
  by (auto simp: compare_databases_filtered_def compare_views_onwards_filtered_def io_simps
        snd_compare_objects get_tables_filtered_def get_views_def get_procedures_filtered_def
        get_functions_filtered_def fetch_def
        split: sum.splits)

lemma unfiltered_returns_only_if_reads_succeed:
  assumes "snd (compare_databases (Some s) (Some t)) = Inr v"
  shows "(\<exists>r. tables_query s = Inr r) \<and> (\<exists>r. tables_query t = Inr r) \<and>
         (\<exists>r. views_query s = Inr r) \<and> (\<exists>r. views_query t = Inr r) \<and>
         (\<exists>r. procedures_query s = Inr r) \<and> (\<exists>r. procedures_query t = Inr r) \<and>
         (\<exists>r. functions_query s = Inr r) \<and> (\<exists>r. functions_query t = Inr r) \<and>
         (\<exists>r. indexes_query s = Inr r) \<and> (\<exists>r. indexes_query t = Inr r) \<and>
         (\<exists>r. constraints_query s = Inr r) \<and> (\<exists>r. constraints_query t = Inr r)"
  using assms
  by (auto simp: compare_databases_def compare_connected_def io_simps
        snd_compare_objects snd_compare_indexes snd_compare_constraints
        get_tables_def get_views_def get_procedures_def get_functions_def get_indexes_def
        get_constraints_def fetch_def
        split: sum.splits)

lemma main_filtered_raises:
  "snd (compare_databases_filtered sc tc) = Inl e \<Longrightarrow> main_filtered sc tc = Inl e"
  by (simp add: main_filtered_def)

lemma main_raises: "snd (compare_databases sc tc) = Inl e \<Longrightarrow> main sc tc = Inl e"
  by (simp add: main_def)

text \<open>
  C6, amended. When the source or the target connection could not be opened, both scripts
  print the line of the failed connection and nothing of the comparison, return
  \<^verbatim>\<open>False\<close> and exit with status 1, which is also the result of a comparison that
  found differences. When a catalog query that the script runs raises on either side, the
  exception leaves \<^verbatim>\<open>compare_databases\<close> and \<^verbatim>\<open>main\<close>: no verdict is returned.
\<close>

theorem fatal_error_outcomes:
  "(source_conn = None \<or> target_conn = None \<longrightarrow>
      compare_databases_filtered source_conn target_conn =
        (if source_conn = None then [ConnectFailed Source]
         else [Connected Source, ConnectFailed Target], Inr False) \<and>
      compare_databases source_conn target_conn =
        (if source_conn = None then [ConnectFailed Source]
         else [Connected Source, ConnectFailed Target], Inr False) \<and>
      main_filtered source_conn target_conn = Inr 1 \<and>
      main source_conn target_conn = Inr 1) \<and>
   ((\<exists>e. tables_query s = Inl e \<or> tables_query t = Inl e \<or>
         views_query s = Inl e \<or> views_query t = Inl e \<or>
         procedures_query s = Inl e \<or> procedures_query t = Inl e \<or>
         functions_query s = Inl e \<or> functions_query t = Inl e) \<longrightarrow>
      (\<exists>e. snd (compare_databases_filtered (Some s) (Some t)) = Inl e \<and>
           main_filtered (Some s) (Some t) = Inl e)) \<and>
   ((\<exists>e. tables_query s = Inl e \<or> tables_query t = Inl e \<or>
         views_query s = Inl e \<or> views_query t = Inl e \<or>
         procedures_query s = Inl e \<or> procedures_query t = Inl e \<or>
         functions_query s = Inl e \<or> functions_query t = Inl e \<or>
         indexes_query s = Inl e \<or> indexes_query t = Inl e \<or>
         constraints_query s = Inl e \<or> constraints_query t = Inl e) \<longrightarrow>
      (\<exists>e. snd (compare_databases (Some s) (Some t)) = Inl e \<and>
           main (Some s) (Some t) = Inl e))"
proof (intro conjI impI)
  assume "source_conn = None \<or> target_conn = None"
  then show "compare_databases_filtered source_conn target_conn =
        (if source_conn = None then [ConnectFailed Source]
         else [Connected Source, ConnectFailed Target], Inr False)"
    by (cases source_conn)
       (auto simp: compare_databases_filtered_def then_io_def bind_io_def print_all_def
          return_io_def)
  then show "main_filtered source_conn target_conn = Inr 1"
    by (simp add: main_filtered_def)
next
  assume "source_conn = None \<or> target_conn = None"
  then show "compare_databases source_conn target_conn =
        (if source_conn = None then [ConnectFailed Source]
         else [Connected Source, ConnectFailed Target], Inr False)"
    by (cases source_conn)
       (auto simp: compare_databases_def then_io_def bind_io_def print_all_def return_io_def)
  then show "main source_conn target_conn = Inr 1"
    by (simp add: main_def)
next
  assume a: "\<exists>e. tables_query s = Inl e \<or> tables_query t = Inl e \<or>
         views_query s = Inl e \<or> views_query t = Inl e \<or>
         procedures_query s = Inl e \<or> procedures_query t = Inl e \<or>
         functions_query s = Inl e \<or> functions_query t = Inl e"
  show "\<exists>e. snd (compare_databases_filtered (Some s) (Some t)) = Inl e \<and>
           main_filtered (Some s) (Some t) = Inl e"
  proof (cases "snd (compare_databases_filtered (Some s) (Some t))")
    case (Inl e)
    then show ?thesis by (auto simp: main_filtered_raises)
  next
    case (Inr v)
    from filtered_returns_only_if_reads_succeed [OF this] a show ?thesis by auto
  qed
next
  assume a: "\<exists>e. tables_query s = Inl e \<or> tables_query t = Inl e \<or>
         views_query s = Inl e \<or> views_query t = Inl e \<or>
         procedures_query s = Inl e \<or> procedures_query t = Inl e \<or>
         functions_query s = Inl e \<or> functions_query t = Inl e \<or>
         indexes_query s = Inl e \<or> indexes_query t = Inl e \<or>
         constraints_query s = Inl e \<or> constraints_query t = Inl e"
  show "\<exists>e. snd (compare_databases (Some s) (Some t)) = Inl e \<and>
           main (Some s) (Some t) = Inl e"
  proof (cases "snd (compare_databases (Some s) (Some t))")
    case (Inl e)
    then show ?thesis by (auto simp: main_raises)
  next
    case (Inr v)
    from unfiltered_returns_only_if_reads_succeed [OF this] a show ?thesis by auto
  qed
qed

theorem fatal_error_outcomes_witness:
  "compare_databases_filtered None (Some empty_catalog) = ([ConnectFailed Source], Inr False) \<and>
   compare_databases (Some empty_catalog) None =
     ([Connected Source, ConnectFailed Target], Inr False) \<and>
   main_filtered None (Some empty_catalog) = Inr 1 \<and>
   main (Some empty_catalog) None = Inr 1 \<and>
   (\<exists>e. snd (compare_databases_filtered (Some unreadable_tables) (Some empty_catalog)) = Inl e \<and>
        main_filtered (Some unreadable_tables) (Some empty_catalog) = Inl e) \<and>
   (\<exists>e. snd (compare_databases (Some empty_catalog) (Some unreadable_constraints)) = Inl e \<and>
        main (Some empty_catalog) (Some unreadable_constraints) = Inl e)"
proof -
  note a = fatal_error_outcomes [of None "Some empty_catalog" unreadable_tables empty_catalog]
  note b = fatal_error_outcomes [of "Some empty_catalog" None empty_catalog unreadable_constraints]
  have p: "\<exists>e. tables_query unreadable_tables = Inl e \<or> tables_query empty_catalog = Inl e \<or>
         views_query unreadable_tables = Inl e \<or> views_query empty_catalog = Inl e \<or>
         procedures_query unreadable_tables = Inl e \<or> procedures_query empty_catalog = Inl e \<or>
         functions_query unreadable_tables = Inl e \<or> functions_query empty_catalog = Inl e"
    by (rule exI [of _ DatabaseError]) (simp add: unreadable_tables_def)
  have q: "\<exists>e. tables_query empty_catalog = Inl e \<or> tables_query unreadable_constraints = Inl e \<or>
         views_query empty_catalog = Inl e \<or> views_query unreadable_constraints = Inl e \<or>
         procedures_query empty_catalog = Inl e \<or> procedures_query unreadable_constraints = Inl e \<or>
         functions_query empty_catalog = Inl e \<or> functions_query unreadable_constraints = Inl e \<or>
         indexes_query empty_catalog = Inl e \<or> indexes_query unreadable_constraints = Inl e \<or>
         constraints_query empty_catalog = Inl e \<or>
         constraints_query unreadable_constraints = Inl e"
    by (rule exI [of _ DatabaseError]) (simp add: unreadable_constraints_def)
  from a p have 1: "compare_databases_filtered None (Some empty_catalog) =
        ([ConnectFailed Source], Inr False)"
      and 2: "main_filtered None (Some empty_catalog) = Inr 1"
      and 3: "\<exists>e. snd (compare_databases_filtered (Some unreadable_tables) (Some empty_catalog)) = Inl e \<and>
        main_filtered (Some unreadable_tables) (Some empty_catalog) = Inl e"
    by simp_all
  from b q have 4: "compare_databases (Some empty_catalog) None =
        ([Connected Source, ConnectFailed Target], Inr False)"
      and 5: "main (Some empty_catalog) None = Inr 1"
      and 6: "\<exists>e. snd (compare_databases (Some empty_catalog) (Some unreadable_constraints)) = Inl e \<and>
        main (Some empty_catalog) (Some unreadable_constraints) = Inl e"
    by simp_all
  from 1 2 3 4 5 6 show ?thesis by blast
qed

subsection \<open>Row counts and the unfiltered comparison\<close>

lemma missing_index_line_no_row_count_line:
  "m \<in> set (missing_index_line source_indexes key) \<Longrightarrow> \<not> row_count_line m"
  by (auto simp: missing_index_line_def Let_def split: prod.splits list.splits)

lemma compare_indexes_no_row_count_line:
  "m \<in> set (fst (compare_indexes s t)) \<Longrightarrow> \<not> row_count_line m"
  by (auto simp: compare_indexes_def io_simps query_def Let_def
        dest: missing_index_line_no_row_count_line split: sum.splits if_splits)

lemma missing_constraint_lines_no_row_count_line:
  "m \<in> set (missing_constraint_lines missing) \<Longrightarrow> \<not> row_count_line m"
  by (auto simp: missing_constraint_lines_def Let_def)

lemma compare_constraints_no_row_count_line:
  "m \<in> set (fst (compare_constraints s t)) \<Longrightarrow> \<not> row_count_line m"
  by (auto simp: compare_constraints_def io_simps query_def Let_def
        dest: missing_constraint_lines_no_row_count_line split: sum.splits if_splits)

lemma summary_message:
  assumes "m \<in> set (fst (summary d mt mv mp mf mi mc))"
  shows "m = DifferencesFound \<or> m = Identical \<or> (\<exists>c n. m = SummaryMissing c n)"
  using assms by (auto simp: summary_def io_simps split: if_splits)

lemma all_bind_io:
  assumes "m \<in> set (fst (bind_io a f))"
    and "\<And>m. m \<in> set (fst a) \<Longrightarrow> P m"
    and "\<And>x m. m \<in> set (fst (f x)) \<Longrightarrow> P m"
  shows "P m"
  using assms by (auto simp: fst_bind_io split: sum.splits)

lemma compare_connected_no_row_count_line:
  "m \<in> set (fst (compare_connected s t)) \<Longrightarrow> \<not> row_count_line m"
  unfolding compare_connected_def
  apply (erule all_bind_io,
      (auto dest!: compare_objects_message
         dest: compare_indexes_no_row_count_line compare_constraints_no_row_count_line)[1],
      simp only: split_paired_all prod.case)+
  by (auto dest: summary_message)

lemma unfiltered_no_row_count_line:
  "filter row_count_line (fst (compare_databases source_conn target_conn)) = []"
  by (auto simp: compare_databases_def io_simps filter_empty_conv
        dest: compare_connected_no_row_count_line split: option.splits)

lemma unfiltered_ignores_counts:
  "compare_databases (Some (s\<lparr>count_query := f\<rparr>)) (Some (t\<lparr>count_query := g\<rparr>)) =
   compare_databases (Some s) (Some t)"
  by (simp add: compare_databases_def compare_connected_def compare_indexes_def
        compare_constraints_def get_tables_def get_views_def get_procedures_def
        get_functions_def get_indexes_def get_constraints_def)

text \<open>
  C2, as stated, fails for the unfiltered mode: both sides have the one table
  \<^verbatim>\<open>dbo.Users\<close>, with 100 rows in the source and 99 in the target. The unfiltered
  comparison prints no line of a row-count comparison and returns \<^verbatim>\<open>True\<close>; the
  filtered comparison of the same pair reports the mismatch.
\<close>

theorem unfiltered_compares_no_row_counts:
  "compare_lists [(''dbo'', ''Users'')] [(''dbo'', ''Users'')] ''table'' = ({}, {}) \<and>
   get_tables (users_only (Inr 100)) = Inr [(''dbo'', ''Users'')] \<and>
   get_tables (users_only (Inr 99)) = Inr [(''dbo'', ''Users'')] \<and>
   filter row_count_line
     (fst (compare_databases (Some (users_only (Inr 100))) (Some (users_only (Inr 99))))) = [] \<and>
   snd (compare_databases (Some (users_only (Inr 100))) (Some (users_only (Inr 99)))) = Inr True \<and>
   filter row_count_mismatch
     (fst (compare_databases_filtered (Some (users_only (Inr 100))) (Some (users_only (Inr 99))))) =
     [RowCountDiff (''dbo'', ''Users'') (Some 100) (Some 99)]"
  by code_simp

text \<open>
  C2, amended. In the filtered mode, whenever the table lists match, the row counts are
  compared: the heading of the block is printed, and every table of the source whose two
  counts are unequal is reported with both counts. The unfiltered mode compares no row
  counts: it prints no line of a row-count comparison, and its output and result do not
  depend on the count queries.
\<close>

theorem row_count_reconciliation_by_mode:
  "(get_tables_filtered s = Inr st \<and> get_tables_filtered t = Inr tt \<and>
    compare_lists st tt ''table'' = ({}, {}) \<longrightarrow>
      Section ''[2/5] Comparing Table Row Counts...'' \<in>
        set (fst (compare_databases_filtered (Some s) (Some t))) \<and>
      (\<forall>key \<in> set st. table_row_count s key \<noteq> table_row_count t key \<longrightarrow>
         RowCountDiff key (table_row_count s key) (table_row_count t key) \<in>
           set (fst (compare_databases_filtered (Some s) (Some t))))) \<and>
   filter row_count_line (fst (compare_databases source_conn target_conn)) = [] \<and>
   compare_databases (Some (s\<lparr>count_query := f\<rparr>)) (Some (t\<lparr>count_query := g\<rparr>)) =
     compare_databases (Some s) (Some t)"
proof (intro conjI impI ballI)
  assume a: "get_tables_filtered s = Inr st \<and> get_tables_filtered t = Inr tt \<and>
    compare_lists st tt ''table'' = ({}, {})"
  then have eq: "set st = set tt" by (simp add: compare_lists_empty_iff)
  then have sub: "set st \<subseteq> set tt" by simp
  let ?log = "fst (compare_databases_filtered (Some s) (Some t))"
  let ?block = "fst (compare_row_counts s t st tt {} {})"
  have lines: "filter row_count_line ?log = ?block"
    using filter_row_count_line_filtered_log [of s st t tt] a eq by simp
  have mem: "m \<in> set ?block \<Longrightarrow> m \<in> set ?log" for m
  proof -
    assume "m \<in> set ?block"
    then have "m \<in> set (filter row_count_line ?log)" by (simp only: lines)
    then show "m \<in> set ?log" by simp
  qed
  show "Section ''[2/5] Comparing Table Row Counts...'' \<in> set ?log"
    by (rule mem) (simp add: fst_compare_row_counts)
  fix key
  assume k: "key \<in> set st" "table_row_count s key \<noteq> table_row_count t key"
  have "RowCountDiff key (table_row_count s key) (table_row_count t key) \<in> set ?block"
    using k
    by (auto simp: fst_compare_row_counts row_count_diffs_of_matching_tables [OF sub] Let_def
          filter_empty_conv image_iff)
  then show "RowCountDiff key (table_row_count s key) (table_row_count t key) \<in> set ?log"
    by (rule mem)
qed (rule unfiltered_no_row_count_line, rule unfiltered_ignores_counts)

theorem row_count_reconciliation_by_mode_witness:
  "Section ''[2/5] Comparing Table Row Counts...'' \<in>
     set (fst (compare_databases_filtered (Some (users_only (Inr 100))) (Some (users_only (Inr 99))))) \<and>
   RowCountDiff (''dbo'', ''Users'') (Some 100) (Some 99) \<in>
     set (fst (compare_databases_filtered (Some (users_only (Inr 100))) (Some (users_only (Inr 99))))) \<and>
   filter row_count_line
     (fst (compare_databases (Some (users_only (Inr 100))) (Some (users_only (Inr 99))))) = [] \<and>
   compare_databases (Some (users_only (Inr 100))) (Some (users_only (Inr 99))) =
     compare_databases (Some (users_only (Inr 0))) (Some (users_only (Inr 0)))"
proof -
  note w = row_count_reconciliation_by_mode
    [of "users_only (Inr 100)" "[(''dbo'', ''Users'')]" "users_only (Inr 99)"
        "[(''dbo'', ''Users'')]" "Some (users_only (Inr 100))" "Some (users_only (Inr 99))"]
  have t: "get_tables_filtered (users_only c) = Inr [(''dbo'', ''Users'')]" for c
    by (simp add: get_tables_filtered_def fetch_def users_only_def empty_catalog_def
          EXCLUDED_TABLES_def)
  have e: "compare_lists [(''dbo'', ''Users'')] [(''dbo'', ''Users'')] ''table'' = ({}, {})"
    by (auto simp: compare_lists_def Let_def)
  have c: "table_row_count (users_only (Inr n)) key = Some n" for n key
    by (simp add: table_row_count_def users_only_def)
  have u: "users_only (Inr n)\<lparr>count_query := \<lambda>key. Inr 0\<rparr> = users_only (Inr 0)" for n
    by (simp add: users_only_def)
  from w [of "\<lambda>key. Inr 0" "\<lambda>key. Inr 0"] t e show ?thesis
    by (simp add: c u)
qed

subsection \<open>The order of the findings\<close>

lemma filter_finding_map_Missing: "filter finding (map (Missing cat) ks) = map (Missing cat) ks"
  by (induction ks) auto

lemma filter_finding_map_Extra: "filter finding (map (Extra cat) ks) = map (Extra cat) ks"
  by (induction ks) auto

lemma findings_report_differences:
  "filter finding (report_differences cat missing extra) =
     map (Missing cat) (sorted_list_of_set missing) @ map (Extra cat) (sorted_list_of_set extra)"
  by (simp add: report_differences_def filter_finding_map_Missing filter_finding_map_Extra)

lemma findings_compare_objects:
  assumes "\<And>n. filter finding (matched n) = []"
  shows "filter finding (fst (compare_objects heading cat item_name (Inr xs) (Inr ys) matched)) =
     map (Missing cat) (sorted_list_of_set (set xs - set ys)) @
     map (Extra cat) (sorted_list_of_set (set ys - set xs))"
  by (auto simp: fst_compare_objects findings_report_differences assms)

lemma findings_matched_or_none: "filter finding (matched_or_none cat n) = []"
  by (simp add: matched_or_none_def)

lemma findings_summary_filtered: "filter finding (fst (summary_filtered d mt mv mp mf)) = []"
  by (simp add: summary_filtered_def io_simps)

lemma findings_summary: "filter finding (fst (summary d mt mv mp mf mi mc)) = []"
  by (simp add: summary_def io_simps)

lemma findings_views_onwards_filtered:
  assumes "get_views s = Inr sv" "get_views t = Inr tv"
    and "get_procedures_filtered s = Inr sp" "get_procedures_filtered t = Inr tp"
    and "get_functions_filtered s = Inr sf" "get_functions_filtered t = Inr tf"
  shows "filter finding (fst (compare_views_onwards_filtered s t d mt)) =
     map (Missing View) (sorted_list_of_set (set sv - set tv)) @
     map (Extra View) (sorted_list_of_set (set tv - set sv)) @
     map (Missing Procedure) (sorted_list_of_set (set sp - set tp)) @
     map (Extra Procedure) (sorted_list_of_set (set tp - set sp)) @
     map (Missing Function) (sorted_list_of_set (set sf - set tf)) @
     map (Extra Function) (sorted_list_of_set (set tf - set sf))"
  by (simp add: compare_views_onwards_filtered_def io_simps snd_compare_objects assms
        findings_compare_objects findings_matched_or_none findings_summary_filtered)

lemma findings_compare_row_counts:
  "filter finding (fst (compare_row_counts s t st tt mt et)) =
   filter row_count_mismatch (fst (compare_row_counts s t st tt mt et))"
proof -
  have "row_count_line m \<Longrightarrow> finding m = row_count_mismatch m" for m
    by (cases m) auto
  then show ?thesis
    by (auto intro!: filter_cong dest: compare_row_counts_only_row_count_lines)
qed

lemma mismatches_compare_row_counts:
  assumes "set st \<subseteq> set tt"
  shows "filter row_count_mismatch (fst (compare_row_counts s t st tt {} {})) =
         map (\<lambda>key. RowCountDiff key (table_row_count s key) (table_row_count t key))
           (filter (\<lambda>key. table_row_count s key \<noteq> table_row_count t key) st)"
  by (auto simp: fst_compare_row_counts row_count_diffs_of_matching_tables [OF assms] Let_def
        filter_map o_def split: sum.splits)

lemma findings_filtered:
  assumes "get_tables_filtered s = Inr st" "get_tables_filtered t = Inr tt"
    and "get_views s = Inr sv" "get_views t = Inr tv"
    and "get_procedures_filtered s = Inr sp" "get_procedures_filtered t = Inr tp"
    and "get_functions_filtered s = Inr sf" "get_functions_filtered t = Inr tf"
    and "snd (compare_databases_filtered (Some s) (Some t)) = Inr verdict"
  shows "filter finding (fst (compare_databases_filtered (Some s) (Some t))) =
     map (Missing Table) (sorted_list_of_set (set st - set tt)) @
     map (Extra Table) (sorted_list_of_set (set tt - set st)) @
     (if set st = set tt
      then map (\<lambda>key. RowCountDiff key (table_row_count s key) (table_row_count t key))
             (filter (\<lambda>key. table_row_count s key \<noteq> table_row_count t key) st)
      else []) @
     map (Missing View) (sorted_list_of_set (set sv - set tv)) @
     map (Extra View) (sorted_list_of_set (set tv - set sv)) @
     map (Missing Procedure) (sorted_list_of_set (set sp - set tp)) @
     map (Extra Procedure) (sorted_list_of_set (set tp - set sp)) @
     map (Missing Function) (sorted_list_of_set (set sf - set tf)) @
     map (Extra Function) (sorted_list_of_set (set tf - set sf))"
proof -
  obtain d where d: "snd (compare_row_counts s t st tt (set st - set tt) (set tt - set st)) = Inr d"
    using assms(9) by (auto simp: filtered_result [OF assms(1,2)] split: sum.splits)
  have rows: "filter finding (fst (compare_row_counts s t st tt (set st - set tt) (set tt - set st))) =
     (if set st = set tt
      then map (\<lambda>key. RowCountDiff key (table_row_count s key) (table_row_count t key))
             (filter (\<lambda>key. table_row_count s key \<noteq> table_row_count t key) st)
      else [])"
  proof (cases "set st = set tt")
    case True
    then have "set st \<subseteq> set tt" by simp
    from mismatches_compare_row_counts [OF this] True show ?thesis
      by (simp add: findings_compare_row_counts)
  next
    case False
    then have "set st - set tt \<noteq> {} \<or> set tt - set st \<noteq> {}" by auto
    with False show ?thesis
      by (auto simp: fst_compare_row_counts)
  qed
  show ?thesis
    by (simp add: filtered_log [OF assms(1,2)] d rows findings_compare_objects
          findings_views_onwards_filtered [OF assms(3-8)])
qed

subsection \<open>Missing constraints are grouped by type\<close>

lemma group_by_type_fold_keys:
  "distinct (map fst acc) \<Longrightarrow>
   distinct (map fst (fold (\<lambda>c by_type.
             (case c of (schema, table, const_name, const_type) \<Rightarrow>
                AList.update const_type
                  ((case map_of by_type const_type of None \<Rightarrow> [] | Some items \<Rightarrow> items) @
                   [(schema, table, const_name)])
                  by_type)) cs acc))"
  by (induction cs arbitrary: acc) (auto simp: distinct_update split: prod.splits)

lemma group_by_type_fold_lookup:
  "map_of (fold (\<lambda>c by_type.
             (case c of (schema, table, const_name, const_type) \<Rightarrow>
                AList.update const_type
                  ((case map_of by_type const_type of None \<Rightarrow> [] | Some items \<Rightarrow> items) @
                   [(schema, table, const_name)])
                  by_type)) cs acc) ty =
   (if ty \<in> (\<lambda>c. snd (snd (snd c))) ` set cs
    then Some ((case map_of acc ty of None \<Rightarrow> [] | Some items \<Rightarrow> items) @
               map (\<lambda>c. (fst c, fst (snd c), fst (snd (snd c))))
                 (filter (\<lambda>c. snd (snd (snd c)) = ty) cs))
    else map_of acc ty)"
proof (induction cs arbitrary: acc)
  case Nil
  then show ?case by simp
next
  case (Cons c cs)
  obtain schema table const_name const_type where c: "c = (schema, table, const_name, const_type)"
    by (cases c) auto
  show ?case
    by (auto simp: c Cons.IH update_conv' image_iff filter_empty_conv split: option.splits)
qed

lemma distinct_keys_group_by_type: "distinct (map fst (group_by_type cs))"
  unfolding group_by_type_def by (rule group_by_type_fold_keys) simp

lemma map_of_group_by_type:
  "map_of (group_by_type cs) ty =
   (if ty \<in> (\<lambda>c. snd (snd (snd c))) ` set cs
    then Some (map (\<lambda>c. (fst c, fst (snd c), fst (snd (snd c))))
                 (filter (\<lambda>c. snd (snd (snd c)) = ty) cs))
    else None)"
  unfolding group_by_type_def by (simp add: group_by_type_fold_lookup)

lemma group_by_type_entry:
  "(ty, items) \<in> set (group_by_type cs) \<longleftrightarrow>
   ty \<in> (\<lambda>c. snd (snd (snd c))) ` set cs \<and>
   items = map (\<lambda>c. (fst c, fst (snd c), fst (snd (snd c))))
             (filter (\<lambda>c. snd (snd (snd c)) = ty) cs)"
  using map_of_eq_Some_iff [OF distinct_keys_group_by_type, of cs ty items]
  by (auto simp: map_of_group_by_type split: if_splits)

lemma strictly_sorted_keys:
  "sorted B \<Longrightarrow> distinct (map fst B) \<Longrightarrow> sorted_wrt (\<lambda>x y. fst x < fst y) B"
  for B :: "(string \<times> index_key list) list"
proof (induction B)
  case Nil
  then show ?case by simp
next
  case (Cons b B)
  have "fst b < fst y" if "y \<in> set B" for y
  proof -
    have "b \<le> y" using Cons.prems(1) that by auto
    then have "fst b \<le> fst y" by (auto simp: less_eq_prod_def)
    moreover have "fst b \<noteq> fst y" using Cons.prems(2) that by (auto simp: image_iff)
    ultimately show ?thesis by simp
  qed
  with Cons show ?case by auto
qed

lemma strictly_sorted_groups:
  fixes B :: "(string \<times> index_key list) list"
  assumes "sorted_wrt (\<lambda>x y. fst x < fst y) B"
    and "\<And>ty items. (ty, items) \<in> set B \<Longrightarrow> sorted_wrt (<) items"
  shows "sorted_wrt (<) (concat (map (\<lambda>(ty, items). map (Pair ty) items) B))"
  using assms
proof (induction B)
  case Nil
  then show ?case by simp
next
  case (Cons b B)
  obtain ty items where b: "b = (ty, items)" by (cases b)
  have 1: "sorted_wrt (<) (map (Pair ty) items)"
    using Cons.prems(2) [of ty items] by (simp add: b sorted_wrt_map)
  have 2: "sorted_wrt (<) (concat (map (\<lambda>(ty, items). map (Pair ty) items) B))"
    using Cons by auto
  have 3: "x < y" if "x \<in> set (map (Pair ty) items)"
    and "y \<in> set (concat (map (\<lambda>(ty, items). map (Pair ty) items) B))" for x y
  proof -
    from that(2) obtain ty' items' where "(ty', items') \<in> set B" "fst y = ty'"
      by auto
    then have "ty < fst y" using Cons.prems(1) by (auto simp: b)
    moreover have "fst x = ty" using that(1) by auto
    ultimately show ?thesis by (simp add: less_prod_def)
  qed
  show ?case
    using 1 2 3 by (simp add: b sorted_wrt_append)
qed

lemma strictly_sorted_group:
  fixes cs :: "constraint_key list"
  assumes "sorted_wrt (<) cs"
  shows "sorted_wrt (<) (map (\<lambda>c. (fst c, fst (snd c), fst (snd (snd c))))
           (filter (\<lambda>c. snd (snd (snd c)) = ty) cs))"
proof -
  have "sorted_wrt (<) (filter (\<lambda>c. snd (snd (snd c)) = ty) cs)"
    using assms by (rule sorted_wrt_filter)
  moreover have "(fst x, fst (snd x), fst (snd (snd x))) < (fst y, fst (snd y), fst (snd (snd y)))"
    if "x < y" "snd (snd (snd x)) = ty" "snd (snd (snd y)) = ty" for x y :: constraint_key
    using that by (cases x; cases y) (auto simp: less_prod_def less_eq_prod_def)
  ultimately show ?thesis
    unfolding sorted_wrt_map
    by (rule sorted_wrt_mono_rel [rotated]) auto
qed

lemma findings_constraint_groups:
  "filter finding
     (concat (map (\<lambda>(const_type, items). ConstraintType const_type # map MissingConstraint items) B)) =
   map (MissingConstraint \<circ> snd) (concat (map (\<lambda>(ty, items). map (Pair ty) items) B))"
proof (induction B)
  case Nil
  then show ?case by simp
next
  case (Cons b B)
  have "filter finding (map MissingConstraint items) = map MissingConstraint items" for items
    by (induction items) auto
  with Cons show ?case by (cases b) (auto simp: o_def)
qed

lemma findings_missing_constraint_lines:
  assumes "finite missing_constraints"
  shows "filter finding (missing_constraint_lines missing_constraints) =
     map (MissingConstraint \<circ> snd)
       (sorted_list_of_set
          ((\<lambda>c. (snd (snd (snd c)), fst c, fst (snd c), fst (snd (snd c)))) ` missing_constraints))"
proof -
  let ?K = "\<lambda>c::constraint_key. (snd (snd (snd c)), fst c, fst (snd c), fst (snd (snd c)))"
  let ?cs = "sorted_list_of_set missing_constraints"
  let ?B = "sort (group_by_type ?cs)"
  let ?L = "concat (map (\<lambda>(ty, items). map (Pair ty) items) ?B)"
  have cs: "sorted_wrt (<) ?cs" "set ?cs = missing_constraints"
    using assms by (simp_all add: strict_sorted_iff)
  have keys: "sorted_wrt (\<lambda>x y. fst x < fst y) ?B"
  proof (rule strictly_sorted_keys)
    show "sorted ?B" by simp
    have "distinct (map fst (group_by_type ?cs))" by (rule distinct_keys_group_by_type)
    then have "distinct (group_by_type ?cs) \<and> inj_on fst (set (group_by_type ?cs))"
      by (simp add: distinct_map)
    then show "distinct (map fst ?B)" by (simp add: distinct_map)
  qed
  have groups: "sorted_wrt (<) items" if "(ty, items) \<in> set ?B" for ty items
    using that strictly_sorted_group [OF cs(1)] by (simp add: group_by_type_entry)
  have "sorted_wrt (<) ?L"
    using keys groups by (rule strictly_sorted_groups)
  then have L: "sorted ?L" "distinct ?L"
    by (simp_all add: strict_sorted_iff)
  have "set ?L = ?K ` missing_constraints"
  proof -
    have "x \<in> set ?L \<longleftrightarrow> x \<in> ?K ` set ?cs" for x
    proof -
      obtain ty k where x: "x = (ty, k)" by (cases x)
      have "x \<in> set ?L \<longleftrightarrow> (\<exists>items. (ty, items) \<in> set (group_by_type ?cs) \<and> k \<in> set items)"
        by (auto simp: x)
      also have "\<dots> \<longleftrightarrow> x \<in> ?K ` set ?cs"
        by (force simp: x group_by_type_entry image_iff)
      finally show ?thesis .
    qed
    then show ?thesis by (auto simp only: cs(2))
  qed
  moreover have "finite (?K ` missing_constraints)" using assms by simp
  ultimately have "?L = sorted_list_of_set (?K ` missing_constraints)"
    using L by (intro sorted_distinct_set_unique) simp_all
  then show ?thesis
    by (simp add: missing_constraint_lines_def findings_constraint_groups)
qed

lemma missing_index_line_single:
  assumes "key \<in> (\<lambda>idx. (fst idx, fst (snd idx), fst (snd (snd idx)))) ` set source_indexes"
  shows "\<exists>idx_type flags. missing_index_line source_indexes key = [MissingIndex key idx_type flags]"
proof -
  obtain schema table idx_name where key: "key = (schema, table, idx_name)"
    by (cases key) auto
  have "filter (\<lambda>idx. fst idx = schema \<and> fst (snd idx) = table \<and>
                       fst (snd (snd idx)) = idx_name) source_indexes \<noteq> []"
    using assms by (auto simp: key filter_empty_conv)
  then show ?thesis
    by (auto simp: missing_index_line_def key Let_def split: list.splits)
qed

lemma findings_missing_index_lines:
  "filter finding (concat (map (missing_index_line source_indexes) keys)) =
   concat (map (missing_index_line source_indexes) keys)"
proof -
  have "m \<in> set (missing_index_line source_indexes key) \<Longrightarrow> finding m" for m key
    by (auto simp: missing_index_line_def Let_def split: prod.splits list.splits)
  then show ?thesis by (auto simp: filter_id_conv)
qed

lemma filter_finding_map_ExtraIndex: "filter finding (map ExtraIndex ks) = map ExtraIndex ks"
  by (induction ks) auto

lemma filter_finding_map_ExtraConstraint:
  "filter finding (map ExtraConstraint ks) = map ExtraConstraint ks"
  by (induction ks) auto

lemma findings_report_shape:
  assumes "\<not> finding x" "\<not> finding y" "\<not> finding z"
    and "A = {} \<Longrightarrow> filter finding xs = []"
    and "B = {} \<Longrightarrow> filter finding ys = []"
  shows "filter finding
           (w # (if A \<noteq> {} \<or> B \<noteq> {}
                 then (if A \<noteq> {} then x # xs else []) @ (if B \<noteq> {} then y # ys else [])
                 else [z])) =
         filter finding [w] @ filter finding xs @ filter finding ys"
proof (cases "A = {}")
  case True
  with assms show ?thesis by (cases "B = {}") simp_all
next
  case False
  with assms show ?thesis by (cases "B = {}") simp_all
qed

lemma findings_compare_indexes:
  assumes "get_indexes s = Inr si" "get_indexes t = Inr ti"
  shows "filter finding (fst (compare_indexes s t)) =
     concat (map (missing_index_line si)
       (sorted_list_of_set
          ((\<lambda>idx. (fst idx, fst (snd idx), fst (snd (snd idx)))) ` set si -
           (\<lambda>idx. (fst idx, fst (snd idx), fst (snd (snd idx)))) ` set ti))) @
     map ExtraIndex
       (sorted_list_of_set
          ((\<lambda>idx. (fst idx, fst (snd idx), fst (snd (snd idx)))) ` set ti -
           (\<lambda>idx. (fst idx, fst (snd idx), fst (snd (snd idx)))) ` set si))"
proof -
  define a where "a = (\<lambda>idx::index_row. (fst idx, fst (snd idx), fst (snd (snd idx)))) ` set si"
  define b where "b = (\<lambda>idx::index_row. (fst idx, fst (snd idx), fst (snd (snd idx)))) ` set ti"
  have e: "fst (compare_indexes s t) =
     Section ''[5/6] Comparing Indexes...'' #
     (if a - b \<noteq> {} \<or> b - a \<noteq> {} then
        (if a - b \<noteq> {}
         then MissingCount Index (card (a - b)) #
              concat (map (missing_index_line si) (sorted_list_of_set (a - b)))
         else []) @
        (if b - a \<noteq> {}
         then ExtraCount Index (card (b - a)) # map ExtraIndex (sorted_list_of_set (b - a))
         else [])
      else [AllMatch Index (length si)])"
    unfolding a_def b_def
    by (simp add: compare_indexes_def io_simps query_def Let_def assms)
  have "filter finding (fst (compare_indexes s t)) =
     filter finding [Section ''[5/6] Comparing Indexes...''] @
     filter finding (concat (map (missing_index_line si) (sorted_list_of_set (a - b)))) @
     filter finding (map ExtraIndex (sorted_list_of_set (b - a)))"
    unfolding e
  proof (rule findings_report_shape)
    assume h: "a - b = {}"
    show "filter finding (concat (map (missing_index_line si) (sorted_list_of_set (a - b)))) = []"
      unfolding h by simp
  next
    assume h: "b - a = {}"
    show "filter finding (map ExtraIndex (sorted_list_of_set (b - a))) = []"
      unfolding h by simp
  qed simp_all
  then show ?thesis
    unfolding a_def b_def
    by (simp add: findings_missing_index_lines filter_finding_map_ExtraIndex)
qed

lemma findings_compare_constraints:
  assumes "get_constraints s = Inr sc" "get_constraints t = Inr tc"
  shows "filter finding (fst (compare_constraints s t)) =
     map (MissingConstraint \<circ> snd)
       (sorted_list_of_set
          ((\<lambda>c. (snd (snd (snd c)), fst c, fst (snd c), fst (snd (snd c)))) `
           (set sc - set tc))) @
     map ExtraConstraint (sorted_list_of_set (set tc - set sc))"
proof -
  define a where "a = set sc"
  define b where "b = set tc"
  have fin: "finite (a - b)" by (simp add: a_def)
  have e: "fst (compare_constraints s t) =
     Section ''[6/6] Comparing Constraints...'' #
     (if a - b \<noteq> {} \<or> b - a \<noteq> {} then
        (if a - b \<noteq> {}
         then MissingCount Constraint (card (a - b)) # missing_constraint_lines (a - b)
         else []) @
        (if b - a \<noteq> {}
         then ExtraCount Constraint (card (b - a)) #
              map ExtraConstraint (sorted_list_of_set (b - a))
         else [])
      else [AllMatch Constraint (length sc)])"
    unfolding a_def b_def
    by (simp add: compare_constraints_def io_simps query_def Let_def assms)
  have "filter finding (fst (compare_constraints s t)) =
     filter finding [Section ''[6/6] Comparing Constraints...''] @
     filter finding (missing_constraint_lines (a - b)) @
     filter finding (map ExtraConstraint (sorted_list_of_set (b - a)))"
    unfolding e
  proof (rule findings_report_shape)
    assume h: "a - b = {}"
    show "filter finding (missing_constraint_lines (a - b)) = []"
      unfolding h by (simp add: missing_constraint_lines_def group_by_type_def)
  next
    assume h: "b - a = {}"
    show "filter finding (map ExtraConstraint (sorted_list_of_set (b - a))) = []"
      unfolding h by simp
  qed simp_all
  then show ?thesis
    unfolding a_def b_def
    by (simp add: findings_missing_constraint_lines filter_finding_map_ExtraConstraint)
qed

lemma findings_unfiltered:
  assumes "get_tables s = Inr st" "get_tables t = Inr tt"
    and "get_views s = Inr sv" "get_views t = Inr tv"
    and "get_procedures s = Inr sp" "get_procedures t = Inr tp"
    and "get_functions s = Inr sf" "get_functions t = Inr tf"
    and "get_indexes s = Inr si" "get_indexes t = Inr ti"
    and "get_constraints s = Inr sc" "get_constraints t = Inr tc"
  shows "filter finding (fst (compare_databases (Some s) (Some t))) =
     map (Missing Table) (sorted_list_of_set (set st - set tt)) @
     map (Extra Table) (sorted_list_of_set (set tt - set st)) @
     map (Missing View) (sorted_list_of_set (set sv - set tv)) @
     map (Extra View) (sorted_list_of_set (set tv - set sv)) @
     map (Missing Procedure) (sorted_list_of_set (set sp - set tp)) @
     map (Extra Procedure) (sorted_list_of_set (set tp - set sp)) @
     map (Missing Function) (sorted_list_of_set (set sf - set tf)) @
     map (Extra Function) (sorted_list_of_set (set tf - set sf)) @
     concat (map (missing_index_line si)
       (sorted_list_of_set
          ((\<lambda>idx. (fst idx, fst (snd idx), fst (snd (snd idx)))) ` set si -
           (\<lambda>idx. (fst idx, fst (snd idx), fst (snd (snd idx)))) ` set ti))) @
     map ExtraIndex
       (sorted_list_of_set
          ((\<lambda>idx. (fst idx, fst (snd idx), fst (snd (snd idx)))) ` set ti -
           (\<lambda>idx. (fst idx, fst (snd idx), fst (snd (snd idx)))) ` set si)) @
     map (MissingConstraint \<circ> snd)
       (sorted_list_of_set
          ((\<lambda>c. (snd (snd (snd c)), fst c, fst (snd c), fst (snd (snd c)))) `
           (set sc - set tc))) @
     map ExtraConstraint (sorted_list_of_set (set tc - set sc))"
proof -
  have i: "snd (compare_indexes s t) = Inr
      ((\<lambda>idx. (fst idx, fst (snd idx), fst (snd (snd idx)))) ` set si -
       (\<lambda>idx. (fst idx, fst (snd idx), fst (snd (snd idx)))) ` set ti,
       (\<lambda>idx. (fst idx, fst (snd idx), fst (snd (snd idx)))) ` set ti -
       (\<lambda>idx. (fst idx, fst (snd idx), fst (snd (snd idx)))) ` set si)"
    by (simp add: snd_compare_indexes assms)
  have c: "snd (compare_constraints s t) = Inr (set sc - set tc, set tc - set sc)"
    by (simp add: snd_compare_constraints assms)
  show ?thesis
    by (simp add: compare_databases_def compare_connected_def io_simps snd_compare_objects
          assms(1-8) i c findings_compare_objects findings_summary
          findings_compare_indexes [OF assms(9,10)]
          findings_compare_constraints [OF assms(11,12)])
qed

text \<open>
  C7, as stated, fails. In the filtered mode the row-count findings come directly after the
  tables, before the views. In the unfiltered mode the missing constraints are grouped by
  their type: \<^verbatim>\<open>dbo.B.CK_B\<close> of type \<^verbatim>\<open>CHECK\<close> is listed before
  \<^verbatim>\<open>dbo.A.PK_A\<close> of type \<^verbatim>\<open>PRIMARY KEY\<close>.
\<close>

theorem findings_not_in_declared_order:
  "filter finding
     (fst (compare_databases_filtered (Some (with_view (users_only (Inr 100))))
        (Some (users_only (Inr 99))))) =
   [RowCountDiff (''dbo'', ''Users'') (Some 100) (Some 99),
    Missing View (''dbo'', ''ActiveUsers'')] \<and>
   filter finding (fst (compare_databases (Some two_constraints) (Some empty_catalog))) =
   [MissingConstraint (''dbo'', ''B'', ''CK_B''), MissingConstraint (''dbo'', ''A'', ''PK_A'')]"
  by code_simp

text \<open>
  C7, amended. The findings of a completed comparison follow the order of the blocks of the
  script. Filtered mode: tables, row counts, views, procedures, functions. Unfiltered mode:
  tables, views, procedures, functions, indexes, constraints, and no row counts. Within a
  category the missing identities come first and the extra ones second, each sorted
  lexicographically, with two exceptions: the row-count mismatches are in the order of
  \<^verbatim>\<open>source_tables\<close>, and the missing constraints are sorted by their type first and
  by schema, table and name second. Every missing index has exactly one line.
\<close>

theorem findings_order:
  assumes "get_tables_filtered s = Inr st" and "get_tables_filtered t = Inr tt"
    and "get_views s = Inr sv" and "get_views t = Inr tv"
    and "get_procedures_filtered s = Inr sp" and "get_procedures_filtered t = Inr tp"
    and "get_functions_filtered s = Inr sf" and "get_functions_filtered t = Inr tf"
    and "snd (compare_databases_filtered (Some s) (Some t)) = Inr verdict"
    and "get_tables s' = Inr st'" and "get_tables t' = Inr tt'"
    and "get_views s' = Inr sv'" and "get_views t' = Inr tv'"
    and "get_procedures s' = Inr sp'" and "get_procedures t' = Inr tp'"
    and "get_functions s' = Inr sf'" and "get_functions t' = Inr tf'"
    and "get_indexes s' = Inr si'" and "get_indexes t' = Inr ti'"
    and "get_constraints s' = Inr sc'" and "get_constraints t' = Inr tc'"
  shows "filter finding (fst (compare_databases_filtered (Some s) (Some t))) =
     map (Missing Table) (sorted_list_of_set (set st - set tt)) @
     map (Extra Table) (sorted_list_of_set (set tt - set st)) @
     (if set st = set tt
      then map (\<lambda>key. RowCountDiff key (table_row_count s key) (table_row_count t key))
             (filter (\<lambda>key. table_row_count s key \<noteq> table_row_count t key) st)
      else []) @
     map (Missing View) (sorted_list_of_set (set sv - set tv)) @
     map (Extra View) (sorted_list_of_set (set tv - set sv)) @
     map (Missing Procedure) (sorted_list_of_set (set sp - set tp)) @
     map (Extra Procedure) (sorted_list_of_set (set tp - set sp)) @
     map (Missing Function) (sorted_list_of_set (set sf - set tf)) @
     map (Extra Function) (sorted_list_of_set (set tf - set sf)) \<and>
   filter finding (fst (compare_databases (Some s') (Some t'))) =
     map (Missing Table) (sorted_list_of_set (set st' - set tt')) @
     map (Extra Table) (sorted_list_of_set (set tt' - set st')) @
     map (Missing View) (sorted_list_of_set (set sv' - set tv')) @
     map (Extra View) (sorted_list_of_set (set tv' - set sv')) @
     map (Missing Procedure) (sorted_list_of_set (set sp' - set tp')) @
     map (Extra Procedure) (sorted_list_of_set (set tp' - set sp')) @
     map (Missing Function) (sorted_list_of_set (set sf' - set tf')) @
     map (Extra Function) (sorted_list_of_set (set tf' - set sf')) @
     concat (map (missing_index_line si')
       (sorted_list_of_set
          ((\<lambda>idx. (fst idx, fst (snd idx), fst (snd (snd idx)))) ` set si' -
           (\<lambda>idx. (fst idx, fst (snd idx), fst (snd (snd idx)))) ` set ti'))) @
     map ExtraIndex
       (sorted_list_of_set
          ((\<lambda>idx. (fst idx, fst (snd idx), fst (snd (snd idx)))) ` set ti' -
           (\<lambda>idx. (fst idx, fst (snd idx), fst (snd (snd idx)))) ` set si')) @
     map (MissingConstraint \<circ> snd)
       (sorted_list_of_set
          ((\<lambda>c. (snd (snd (snd c)), fst c, fst (snd c), fst (snd (snd c)))) `
           (set sc' - set tc'))) @
     map ExtraConstraint (sorted_list_of_set (set tc' - set sc')) \<and>
   (\<forall>key \<in> (\<lambda>idx. (fst idx, fst (snd idx), fst (snd (snd idx)))) ` set si'.
      \<exists>idx_type flags. missing_index_line si' key = [MissingIndex key idx_type flags])"
  using findings_filtered [OF assms(1-9)] findings_unfiltered [OF assms(10-21)]
    missing_index_line_single [of _ si']
  by blast

theorem findings_order_witness:
  "filter finding
     (fst (compare_databases_filtered (Some (with_view users_and_orders))
        (Some (users_only (Inr 100))))) =
   [Missing Table (''dbo'', ''Orders''), Missing View (''dbo'', ''ActiveUsers'')] \<and>
   filter finding (fst (compare_databases (Some two_indexes) (Some empty_catalog))) =
   [MissingIndex (''dbo'', ''Users'', ''IX_Users_Name'') ''NONCLUSTERED'' [],
    MissingIndex (''dbo'', ''Users'', ''PK_Users'') ''CLUSTERED'' [''PRIMARY KEY'', ''UNIQUE'']]"
proof -
  have 1: "get_tables_filtered (with_view users_and_orders) =
           Inr [(''dbo'', ''Orders''), (''dbo'', ''Users'')]"
    by code_simp
  have 2: "get_tables_filtered (users_only (Inr 100)) = Inr [(''dbo'', ''Users'')]"
    by code_simp
  have 3: "get_views (with_view users_and_orders) = Inr [(''dbo'', ''ActiveUsers'')]"
    by code_simp
  have 4: "get_views (users_only (Inr 100)) = Inr []"
    by code_simp
  have 5: "get_procedures_filtered (with_view users_and_orders) = Inr []"
    by code_simp
  have 6: "get_procedures_filtered (users_only (Inr 100)) = Inr []"
    by code_simp
  have 7: "get_functions_filtered (with_view users_and_orders) = Inr []"
    by code_simp
  have 8: "get_functions_filtered (users_only (Inr 100)) = Inr []"
    by code_simp
  have 9: "snd (compare_databases_filtered (Some (with_view users_and_orders))
             (Some (users_only (Inr 100)))) = Inr False"
    by code_simp
  have 10: "get_tables two_indexes = Inr []" by code_simp
  have 11: "get_tables empty_catalog = Inr []" by code_simp
  have 12: "get_views two_indexes = Inr []" by code_simp
  have 13: "get_views empty_catalog = Inr []" by code_simp
  have 14: "get_procedures two_indexes = Inr []" by code_simp
  have 15: "get_procedures empty_catalog = Inr []" by code_simp
  have 16: "get_functions two_indexes = Inr []" by code_simp
  have 17: "get_functions empty_catalog = Inr []" by code_simp
  have 18: "get_indexes two_indexes =
            Inr [(''dbo'', ''Users'', ''IX_Users_Name'', ''NONCLUSTERED'', False, False),
                 (''dbo'', ''Users'', ''PK_Users'', ''CLUSTERED'', True, True)]"
    by code_simp
  have 19: "get_indexes empty_catalog = Inr []" by code_simp
  have 20: "get_constraints two_indexes = Inr []" by code_simp
  have 21: "get_constraints empty_catalog = Inr []" by code_simp
  note w = findings_order [OF 1 2 3 4 5 6 7 8 9 10 11 12 13 14 15 16 17 18 19 20 21]
  show ?thesis
    unfolding w [THEN conjunct1] w [THEN conjunct2, THEN conjunct1]
    by code_simp
qed

subsection \<open>The exclusion lists\<close>

lemma get_tables_filtered_kept:
  "get_tables_filtered cursor = Inr tables \<Longrightarrow> (schema, name) \<in> set tables \<Longrightarrow>
   name \<notin> EXCLUDED_TABLES"
  by (auto simp: get_tables_filtered_def fetch_def split: sum.splits)

lemma get_procedures_filtered_kept:
  "get_procedures_filtered cursor = Inr procs \<Longrightarrow> (schema, name) \<in> set procs \<Longrightarrow>
   name \<notin> EXCLUDED_PROCEDURES"
  by (auto simp: get_procedures_filtered_def fetch_def split: sum.splits)

lemma get_functions_filtered_kept:
  "get_functions_filtered cursor = Inr funcs \<Longrightarrow> (schema, name) \<in> set funcs \<Longrightarrow>
   name \<notin> EXCLUDED_FUNCTIONS"
  by (auto simp: get_functions_filtered_def fetch_def split: sum.splits)

lemma views_onwards_filtered_kept:
  assumes "m \<in> set (fst (compare_views_onwards_filtered s t d mt))"
  shows "(m = Missing Table (schema, name) \<or> m = Extra Table (schema, name) \<longrightarrow>
            name \<notin> EXCLUDED_TABLES) \<and>
         (m = Missing Procedure (schema, name) \<or> m = Extra Procedure (schema, name) \<longrightarrow>
            name \<notin> EXCLUDED_PROCEDURES) \<and>
         (m = Missing Function (schema, name) \<or> m = Extra Function (schema, name) \<longrightarrow>
            name \<notin> EXCLUDED_FUNCTIONS)"
  using assms views_onwards_filtered_log [of s t d mt]
  by (auto dest!: compare_objects_message
        dest: get_procedures_filtered_kept get_functions_filtered_kept
        simp: matched_or_none_def split: if_splits)

lemma filtered_connected_kept:
  assumes "m \<in> set (fst (compare_databases_filtered (Some s) (Some t)))"
  shows "(m = Missing Table (schema, name) \<or> m = Extra Table (schema, name) \<longrightarrow>
            name \<notin> EXCLUDED_TABLES) \<and>
         (m = Missing Procedure (schema, name) \<or> m = Extra Procedure (schema, name) \<longrightarrow>
            name \<notin> EXCLUDED_PROCEDURES) \<and>
         (m = Missing Function (schema, name) \<or> m = Extra Function (schema, name) \<longrightarrow>
            name \<notin> EXCLUDED_FUNCTIONS)"
proof -
  let ?P = "\<lambda>m. (m = Missing Table (schema, name) \<or> m = Extra Table (schema, name) \<longrightarrow>
            name \<notin> EXCLUDED_TABLES) \<and>
         (m = Missing Procedure (schema, name) \<or> m = Extra Procedure (schema, name) \<longrightarrow>
            name \<notin> EXCLUDED_PROCEDURES) \<and>
         (m = Missing Function (schema, name) \<or> m = Extra Function (schema, name) \<longrightarrow>
            name \<notin> EXCLUDED_FUNCTIONS)"
  have tables: "?P m"
    if "m \<in> set (fst (compare_objects ''[1/5] Comparing Application Tables...'' Table ''table''
                 (get_tables_filtered s) (get_tables_filtered t) (\<lambda>n. [AllMatch Table n])))" for m
    using compare_objects_message [OF that]
    by (auto dest: get_tables_filtered_kept)
  have rows: "?P m" if "m \<in> set (fst (compare_row_counts s t st tt mt et))" for m st tt mt et
    using compare_row_counts_only_row_count_lines [OF that] by auto
  have rest: "?P m" if "m \<in> set (fst (compare_views_onwards_filtered s t d mt))" for m d mt
    using views_onwards_filtered_kept [OF that] by simp
  from assms have "m = Connected Source \<or> m = Connected Target \<or> m \<in> set (fst
     (bind_io
        (compare_objects ''[1/5] Comparing Application Tables...'' Table ''table''
           (get_tables_filtered s) (get_tables_filtered t) (\<lambda>n. [AllMatch Table n]))
        (\<lambda>(source_tables, target_tables, missing_tables, extra_tables).
           bind_io
             (compare_row_counts s t source_tables target_tables missing_tables extra_tables)
             (\<lambda>row_counts_differ.
                compare_views_onwards_filtered s t
                  ((missing_tables \<noteq> {} \<or> extra_tables \<noteq> {}) \<or> row_counts_differ)
                  missing_tables))))"
    by (auto simp: compare_databases_filtered_def fst_then_print)
  then show ?thesis
    apply (elim disjE)
      apply simp
     apply simp
    apply (erule all_bind_io)
     apply (erule tables)
    apply (simp only: split_paired_all prod.case)
    apply (erule all_bind_io)
     apply (erule rows)
    apply (erule rest)
    done
qed

lemma excluded_never_reported:
  assumes "m \<in> set (fst (compare_databases_filtered source_conn target_conn))"
  shows "(m = Missing Table (schema, name) \<or> m = Extra Table (schema, name) \<longrightarrow>
            name \<notin> EXCLUDED_TABLES) \<and>
         (m = Missing Procedure (schema, name) \<or> m = Extra Procedure (schema, name) \<longrightarrow>
            name \<notin> EXCLUDED_PROCEDURES) \<and>
         (m = Missing Function (schema, name) \<or> m = Extra Function (schema, name) \<longrightarrow>
            name \<notin> EXCLUDED_FUNCTIONS)"
proof (cases source_conn)
  case None
  with assms show ?thesis
    by (auto simp: compare_databases_filtered_def io_simps)
next
  case (Some s)
  show ?thesis
  proof (cases target_conn)
    case None
    with Some assms show ?thesis
      by (auto simp: compare_databases_filtered_def io_simps)
  next
    case (Some t)
    with \<open>source_conn = Some s\<close> assms show ?thesis
      using filtered_connected_kept [of m s t schema name] by simp
  qed
qed

lemma reported_iff_kept:
  assumes "tables_query s = Inr str" and "tables_query t = Inr ttr"
    and "views_query s = Inr svr" and "views_query t = Inr tvr"
    and "procedures_query s = Inr spr" and "procedures_query t = Inr tpr"
    and "functions_query s = Inr sfr" and "functions_query t = Inr tfr"
    and "snd (compare_databases_filtered (Some s) (Some t)) = Inr verdict"
  shows "(Missing Table (schema, name) \<in> set (fst (compare_databases_filtered (Some s) (Some t)))) =
           (name \<notin> EXCLUDED_TABLES \<and> (schema, name) \<in> set str \<and> (schema, name) \<notin> set ttr)"
    and "(Extra Table (schema, name) \<in> set (fst (compare_databases_filtered (Some s) (Some t)))) =
           (name \<notin> EXCLUDED_TABLES \<and> (schema, name) \<in> set ttr \<and> (schema, name) \<notin> set str)"
    and "(Missing Procedure (schema, name) \<in> set (fst (compare_databases_filtered (Some s) (Some t)))) =
           (name \<notin> EXCLUDED_PROCEDURES \<and> (schema, name) \<in> set spr \<and> (schema, name) \<notin> set tpr)"
    and "(Extra Procedure (schema, name) \<in> set (fst (compare_databases_filtered (Some s) (Some t)))) =
           (name \<notin> EXCLUDED_PROCEDURES \<and> (schema, name) \<in> set tpr \<and> (schema, name) \<notin> set spr)"
    and "(Missing Function (schema, name) \<in> set (fst (compare_databases_filtered (Some s) (Some t)))) =
           (name \<notin> EXCLUDED_FUNCTIONS \<and> (schema, name) \<in> set sfr \<and> (schema, name) \<notin> set tfr)"
    and "(Extra Function (schema, name) \<in> set (fst (compare_databases_filtered (Some s) (Some t)))) =
           (name \<notin> EXCLUDED_FUNCTIONS \<and> (schema, name) \<in> set tfr \<and> (schema, name) \<notin> set sfr)"
proof -
  let ?log = "fst (compare_databases_filtered (Some s) (Some t))"
  define st where "st = filter (\<lambda>row. snd row \<notin> EXCLUDED_TABLES) str"
  define tt where "tt = filter (\<lambda>row. snd row \<notin> EXCLUDED_TABLES) ttr"
  define sp where "sp = filter (\<lambda>row. snd row \<notin> EXCLUDED_PROCEDURES) spr"
  define tp where "tp = filter (\<lambda>row. snd row \<notin> EXCLUDED_PROCEDURES) tpr"
  define sf where "sf = filter (\<lambda>row. snd row \<notin> EXCLUDED_FUNCTIONS) sfr"
  define tf where "tf = filter (\<lambda>row. snd row \<notin> EXCLUDED_FUNCTIONS) tfr"
  have reads: "get_tables_filtered s = Inr st" "get_tables_filtered t = Inr tt"
    "get_views s = Inr svr" "get_views t = Inr tvr"
    "get_procedures_filtered s = Inr sp" "get_procedures_filtered t = Inr tp"
    "get_functions_filtered s = Inr sf" "get_functions_filtered t = Inr tf"
    by (simp_all add: get_tables_filtered_def get_views_def get_procedures_filtered_def
          get_functions_filtered_def fetch_def assms st_def tt_def sp_def tp_def sf_def tf_def)
  note cf = findings_filtered [OF reads assms(9)]
  have m1: "Missing c k \<in> set ?log \<longleftrightarrow> Missing c k \<in> set (filter finding ?log)" for c k
    by simp
  have m2: "Extra c k \<in> set ?log \<longleftrightarrow> Extra c k \<in> set (filter finding ?log)" for c k
    by simp
  have "Missing Table (schema, name) \<in> set ?log \<longleftrightarrow> (schema, name) \<in> set st - set tt"
    unfolding m1 unfolding cf by auto
  then show "(Missing Table (schema, name) \<in> set ?log) =
           (name \<notin> EXCLUDED_TABLES \<and> (schema, name) \<in> set str \<and> (schema, name) \<notin> set ttr)"
    by (auto simp: st_def tt_def)
  have "Extra Table (schema, name) \<in> set ?log \<longleftrightarrow> (schema, name) \<in> set tt - set st"
    unfolding m2 unfolding cf by auto
  then show "(Extra Table (schema, name) \<in> set ?log) =
           (name \<notin> EXCLUDED_TABLES \<and> (schema, name) \<in> set ttr \<and> (schema, name) \<notin> set str)"
    by (auto simp: st_def tt_def)
  have "Missing Procedure (schema, name) \<in> set ?log \<longleftrightarrow> (schema, name) \<in> set sp - set tp"
    unfolding m1 unfolding cf by auto
  then show "(Missing Procedure (schema, name) \<in> set ?log) =
           (name \<notin> EXCLUDED_PROCEDURES \<and> (schema, name) \<in> set spr \<and> (schema, name) \<notin> set tpr)"
    by (auto simp: sp_def tp_def)
  have "Extra Procedure (schema, name) \<in> set ?log \<longleftrightarrow> (schema, name) \<in> set tp - set sp"
    unfolding m2 unfolding cf by auto
  then show "(Extra Procedure (schema, name) \<in> set ?log) =
           (name \<notin> EXCLUDED_PROCEDURES \<and> (schema, name) \<in> set tpr \<and> (schema, name) \<notin> set spr)"
    by (auto simp: sp_def tp_def)
  have "Missing Function (schema, name) \<in> set ?log \<longleftrightarrow> (schema, name) \<in> set sf - set tf"
    unfolding m1 unfolding cf by auto
  then show "(Missing Function (schema, name) \<in> set ?log) =
           (name \<notin> EXCLUDED_FUNCTIONS \<and> (schema, name) \<in> set sfr \<and> (schema, name) \<notin> set tfr)"
    by (auto simp: sf_def tf_def)
  have "Extra Function (schema, name) \<in> set ?log \<longleftrightarrow> (schema, name) \<in> set tf - set sf"
    unfolding m2 unfolding cf by auto
  then show "(Extra Function (schema, name) \<in> set ?log) =
           (name \<notin> EXCLUDED_FUNCTIONS \<and> (schema, name) \<in> set tfr \<and> (schema, name) \<notin> set sfr)"
    by (auto simp: sf_def tf_def)
qed

lemma diagram_procedure_scenario:
  assumes "tables_query d = Inr tables" and "views_query d = Inr views"
    and "procedures_query d = Inr procs" and "functions_query d = Inr funcs"
    and "indexes_query d = Inr indexes" and "constraints_query d = Inr constraints"
    and "\<forall>key \<in> set tables. \<exists>count. count_query d key = Inr count"
    and "(schema, ''sp_creatediagram'') \<in> set procs"
  shows "snd (compare_databases_filtered (Some d)
           (Some (d\<lparr>procedures_query := Inr (removeAll (schema, ''sp_creatediagram'') procs)\<rparr>))) =
         Inr True"
    and "snd (compare_databases (Some d)
           (Some (d\<lparr>procedures_query := Inr (removeAll (schema, ''sp_creatediagram'') procs)\<rparr>))) =
         Inr False"
    and "filter finding (fst (compare_databases (Some d)
           (Some (d\<lparr>procedures_query := Inr (removeAll (schema, ''sp_creatediagram'') procs)\<rparr>)))) =
         [Missing Procedure (schema, ''sp_creatediagram'')]"
proof -
  let ?x = "(schema, ''sp_creatediagram'')"
  let ?t = "d\<lparr>procedures_query := Inr (removeAll ?x procs)\<rparr>"
  define st where "st = filter (\<lambda>row. snd row \<notin> EXCLUDED_TABLES) tables"
  define sp where "sp = filter (\<lambda>row. snd row \<notin> EXCLUDED_PROCEDURES) procs"
  define tp where "tp = filter (\<lambda>row. snd row \<notin> EXCLUDED_PROCEDURES) (removeAll ?x procs)"
  define sf where "sf = filter (\<lambda>row. snd row \<notin> EXCLUDED_FUNCTIONS) funcs"
  have freads: "get_tables_filtered d = Inr st" "get_tables_filtered ?t = Inr st"
    "get_views d = Inr views" "get_views ?t = Inr views"
    "get_procedures_filtered d = Inr sp" "get_procedures_filtered ?t = Inr tp"
    "get_functions_filtered d = Inr sf" "get_functions_filtered ?t = Inr sf"
    by (simp_all add: get_tables_filtered_def get_views_def get_procedures_filtered_def
          get_functions_filtered_def fetch_def assms st_def sp_def tp_def sf_def)
  have ureads: "get_tables d = Inr tables" "get_tables ?t = Inr tables"
    "get_views d = Inr views" "get_views ?t = Inr views"
    "get_procedures d = Inr procs" "get_procedures ?t = Inr (removeAll ?x procs)"
    "get_functions d = Inr funcs" "get_functions ?t = Inr funcs"
    "get_indexes d = Inr indexes" "get_indexes ?t = Inr indexes"
    "get_constraints d = Inr constraints" "get_constraints ?t = Inr constraints"
    by (simp_all add: get_tables_def get_views_def get_procedures_def get_functions_def
          get_indexes_def get_constraints_def fetch_def assms)
  have counts: "table_row_count ?t key = table_row_count d key" for key
    by (simp add: table_row_count_def)
  have counted: "table_row_count d key \<noteq> None" if "key \<in> set st" for key
    using that assms(7) by (auto simp: st_def table_row_count_def)
  have "''sp_creatediagram'' \<in> EXCLUDED_PROCEDURES"
    by (simp add: EXCLUDED_PROCEDURES_def)
  then have same: "set sp = set tp"
    by (auto simp: sp_def tp_def)
  show "snd (compare_databases_filtered (Some d) (Some ?t)) = Inr True"
    using counted by (auto simp: filtered_verdict [OF freads] counts same)
  have differ: "set procs \<noteq> set (removeAll ?x procs)"
  proof
    assume e: "set procs = set (removeAll ?x procs)"
    show False using assms(8) unfolding e by simp
  qed
  then have differ': "set procs \<noteq> set procs - {?x}"
    by simp
  show "snd (compare_databases (Some d) (Some ?t)) = Inr False"
    by (simp add: unfiltered_verdict [OF ureads] differ')
  have only: "set procs - set (removeAll ?x procs) = {?x}"
    using assms(8) by auto
  have none: "set (removeAll ?x procs) - set procs = {}"
    by auto
  show "filter finding (fst (compare_databases (Some d) (Some ?t))) = [Missing Procedure ?x]"
    unfolding findings_unfiltered [OF ureads] only none
    by simp
qed

text \<open>
  The filtered readers drop a row exactly when its name is in the list of its category,
  whatever its schema, before the lists are compared. So no run of the filtered comparison
  reports a table, procedure or function of an excluded name as missing or extra; and in a
  completed run an object is reported as missing (or extra) exactly when its name is not in
  the list, its row is among the rows of the source (target) and not among those of the
  target (source). When the target is the source without its procedure
  \<^verbatim>\<open>sp_creatediagram\<close> and every count is available, the filtered comparison returns
  \<^verbatim>\<open>True\<close> and the unfiltered one returns \<^verbatim>\<open>False\<close> with that procedure as
  its only finding.
\<close>

lemma exclusion_policy_with_counts:
  assumes "tables_query s = Inr str" and "tables_query t = Inr ttr"
    and "views_query s = Inr svr" and "views_query t = Inr tvr"
    and "procedures_query s = Inr spr" and "procedures_query t = Inr tpr"
    and "functions_query s = Inr sfr" and "functions_query t = Inr tfr"
    and "snd (compare_databases_filtered (Some s) (Some t)) = Inr verdict"
    and "tables_query d = Inr tables" and "views_query d = Inr views"
    and "procedures_query d = Inr procs" and "functions_query d = Inr funcs"
    and "indexes_query d = Inr indexes" and "constraints_query d = Inr constraints"
    and "\<forall>key \<in> set tables. \<exists>count. count_query d key = Inr count"
    and "(schema', ''sp_creatediagram'') \<in> set procs"
  shows "(name \<in> EXCLUDED_TABLES \<longrightarrow>
            Missing Table (schema, name) \<notin> set (fst (compare_databases_filtered source_conn target_conn)) \<and>
            Extra Table (schema, name) \<notin> set (fst (compare_databases_filtered source_conn target_conn))) \<and>
         (name \<in> EXCLUDED_PROCEDURES \<longrightarrow>
            Missing Procedure (schema, name) \<notin> set (fst (compare_databases_filtered source_conn target_conn)) \<and>
            Extra Procedure (schema, name) \<notin> set (fst (compare_databases_filtered source_conn target_conn))) \<and>
         (name \<in> EXCLUDED_FUNCTIONS \<longrightarrow>
            Missing Function (schema, name) \<notin> set (fst (compare_databases_filtered source_conn target_conn)) \<and>
            Extra Function (schema, name) \<notin> set (fst (compare_databases_filtered source_conn target_conn))) \<and>
         (Missing Table (schema, name) \<in> set (fst (compare_databases_filtered (Some s) (Some t)))) =
           (name \<notin> EXCLUDED_TABLES \<and> (schema, name) \<in> set str \<and> (schema, name) \<notin> set ttr) \<and>
         (Extra Table (schema, name) \<in> set (fst (compare_databases_filtered (Some s) (Some t)))) =
           (name \<notin> EXCLUDED_TABLES \<and> (schema, name) \<in> set ttr \<and> (schema, name) \<notin> set str) \<and>
         (Missing Procedure (schema, name) \<in> set (fst (compare_databases_filtered (Some s) (Some t)))) =
           (name \<notin> EXCLUDED_PROCEDURES \<and> (schema, name) \<in> set spr \<and> (schema, name) \<notin> set tpr) \<and>
         (Extra Procedure (schema, name) \<in> set (fst (compare_databases_filtered (Some s) (Some t)))) =
           (name \<notin> EXCLUDED_PROCEDURES \<and> (schema, name) \<in> set tpr \<and> (schema, name) \<notin> set spr) \<and>
         (Missing Function (schema, name) \<in> set (fst (compare_databases_filtered (Some s) (Some t)))) =
           (name \<notin> EXCLUDED_FUNCTIONS \<and> (schema, name) \<in> set sfr \<and> (schema, name) \<notin> set tfr) \<and>
         (Extra Function (schema, name) \<in> set (fst (compare_databases_filtered (Some s) (Some t)))) =
           (name \<notin> EXCLUDED_FUNCTIONS \<and> (schema, name) \<in> set tfr \<and> (schema, name) \<notin> set sfr) \<and>
         snd (compare_databases_filtered (Some d)
           (Some (d\<lparr>procedures_query := Inr (removeAll (schema', ''sp_creatediagram'') procs)\<rparr>))) =
           Inr True \<and>
         snd (compare_databases (Some d)
           (Some (d\<lparr>procedures_query := Inr (removeAll (schema', ''sp_creatediagram'') procs)\<rparr>))) =
           Inr False \<and>
         filter finding (fst (compare_databases (Some d)
           (Some (d\<lparr>procedures_query := Inr (removeAll (schema', ''sp_creatediagram'') procs)\<rparr>)))) =
           [Missing Procedure (schema', ''sp_creatediagram'')]"
proof -
  let ?log = "fst (compare_databases_filtered source_conn target_conn)"
  have a: "(name \<in> EXCLUDED_TABLES \<longrightarrow>
              Missing Table (schema, name) \<notin> set ?log \<and> Extra Table (schema, name) \<notin> set ?log) \<and>
           (name \<in> EXCLUDED_PROCEDURES \<longrightarrow>
              Missing Procedure (schema, name) \<notin> set ?log \<and>
              Extra Procedure (schema, name) \<notin> set ?log) \<and>
           (name \<in> EXCLUDED_FUNCTIONS \<longrightarrow>
              Missing Function (schema, name) \<notin> set ?log \<and>
              Extra Function (schema, name) \<notin> set ?log)"
    using excluded_never_reported [of _ source_conn target_conn schema name] by blast
  note b = reported_iff_kept [OF assms(1-9), of schema name]
  note c = diagram_procedure_scenario [OF assms(10-17)]
  show ?thesis
    using a b c by (intro conjI) blast+
qed

lemma exclusion_policy_with_counts_example:
  "Missing Procedure (''dbo'', ''sp_creatediagram'') \<notin>
     set (fst (compare_databases_filtered (Some mixed_case_procedures) (Some empty_catalog))) \<and>
   Missing Procedure (''dbo'', ''SP_CreateDiagram'') \<in>
     set (fst (compare_databases_filtered (Some mixed_case_procedures) (Some empty_catalog))) \<and>
   snd (compare_databases_filtered (Some (with_diagram_procedure (users_only (Inr 100))))
          (Some (users_only (Inr 100)))) = Inr True \<and>
   snd (compare_databases (Some (with_diagram_procedure (users_only (Inr 100))))
          (Some (users_only (Inr 100)))) = Inr False \<and>
   filter finding
     (fst (compare_databases (Some (with_diagram_procedure (users_only (Inr 100))))
        (Some (users_only (Inr 100))))) =
   [Missing Procedure (''dbo'', ''sp_creatediagram'')]"
proof -
  have 1: "tables_query mixed_case_procedures = Inr []" by code_simp
  have 2: "tables_query empty_catalog = Inr []" by code_simp
  have 3: "views_query mixed_case_procedures = Inr []" by code_simp
  have 4: "views_query empty_catalog = Inr []" by code_simp
  have 5: "procedures_query mixed_case_procedures =
           Inr [(''dbo'', ''SP_CreateDiagram''), (''dbo'', ''sp_creatediagram'')]"
    by code_simp
  have 6: "procedures_query empty_catalog = Inr []" by code_simp
  have 7: "functions_query mixed_case_procedures = Inr []" by code_simp
  have 8: "functions_query empty_catalog = Inr []" by code_simp
  have 9: "snd (compare_databases_filtered (Some mixed_case_procedures) (Some empty_catalog)) =
           Inr False"
    by code_simp
  let ?d = "with_diagram_procedure (users_only (Inr 100))"
  have 10: "tables_query ?d = Inr [(''dbo'', ''Users'')]" by code_simp
  have 11: "views_query ?d = Inr []" by code_simp
  have 12: "procedures_query ?d = Inr [(''dbo'', ''sp_creatediagram'')]" by code_simp
  have 13: "functions_query ?d = Inr []" by code_simp
  have 14: "indexes_query ?d = Inr []" by code_simp
  have 15: "constraints_query ?d = Inr []" by code_simp
  have 16: "\<forall>key \<in> set [(''dbo'', ''Users'')]. \<exists>count. count_query ?d key = Inr count"
    by (simp add: with_diagram_procedure_def users_only_def)
  have 17: "(''dbo'', ''sp_creatediagram'') \<in> set [(''dbo'', ''sp_creatediagram'')]"
    by simp
  have t: "?d\<lparr>procedures_query := Inr (removeAll (''dbo'', ''sp_creatediagram'')
             [(''dbo'', ''sp_creatediagram'')])\<rparr> = users_only (Inr 100)"
    by (simp add: with_diagram_procedure_def users_only_def empty_catalog_def)
  have x: "''sp_creatediagram'' \<in> EXCLUDED_PROCEDURES"
          "''SP_CreateDiagram'' \<notin> EXCLUDED_PROCEDURES"
    by (simp_all add: EXCLUDED_PROCEDURES_def)
  note w = exclusion_policy_with_counts [OF 1 2 3 4 5 6 7 8 9 10 11 12 13 14 15 16 17]
  from w [of "''sp_creatediagram''" "''dbo''" "Some mixed_case_procedures" "Some empty_catalog"]
    w [of "''SP_CreateDiagram''" "''dbo''" "Some mixed_case_procedures" "Some empty_catalog"]
  show ?thesis
    unfolding t using x by simp
qed

subsection \<open>The verdict of a completed comparison\<close>

lemma map_sorted_list_of_set_empty_iff:
  "finite A \<Longrightarrow> map f (sorted_list_of_set A) = [] \<longleftrightarrow> A = {}"
  by (auto simp: sorted_list_of_set_eq_Nil_iff)

lemma filtered_fail_iff_finding:
  assumes "get_tables_filtered s = Inr st" "get_tables_filtered t = Inr tt"
    and "get_views s = Inr sv" "get_views t = Inr tv"
    and "get_procedures_filtered s = Inr sp" "get_procedures_filtered t = Inr tp"
    and "get_functions_filtered s = Inr sf" "get_functions_filtered t = Inr tf"
    and "snd (compare_databases_filtered (Some s) (Some t)) = Inr verdict"
  shows "verdict \<longleftrightarrow> filter finding (fst (compare_databases_filtered (Some s) (Some t))) = []"
proof -
  have v: "verdict \<longleftrightarrow>
        set st = set tt \<and> (\<forall>k \<in> set st. table_row_count s k = table_row_count t k) \<and>
        set sv = set tv \<and> set sp = set tp \<and> set sf = set tf"
    using assms(9) unfolding filtered_verdict [OF assms(1-8)]
    by (auto split: if_splits)
  show ?thesis
    unfolding v findings_filtered [OF assms]
    by (auto simp: map_sorted_list_of_set_empty_iff filter_empty_conv
          simp del: Diff_eq_empty_iff)
qed

lemma unfiltered_fail_iff_finding:
  assumes "get_tables s = Inr st" "get_tables t = Inr tt"
    and "get_views s = Inr sv" "get_views t = Inr tv"
    and "get_procedures s = Inr sp" "get_procedures t = Inr tp"
    and "get_functions s = Inr sf" "get_functions t = Inr tf"
    and "get_indexes s = Inr si" "get_indexes t = Inr ti"
    and "get_constraints s = Inr sc" "get_constraints t = Inr tc"
  shows "snd (compare_databases (Some s) (Some t)) =
         Inr (filter finding (fst (compare_databases (Some s) (Some t))) = [])"
proof -
  define a where "a = (\<lambda>idx::index_row. (fst idx, fst (snd idx), fst (snd (snd idx)))) ` set si"
  define b where "b = (\<lambda>idx::index_row. (fst idx, fst (snd idx), fst (snd (snd idx)))) ` set ti"
  have fin: "finite a" "finite b" by (simp_all add: a_def b_def)
  have lines: "concat (map (missing_index_line si) (sorted_list_of_set (a - b))) = [] \<longleftrightarrow>
               a - b = {}"
  proof
    assume e: "concat (map (missing_index_line si) (sorted_list_of_set (a - b))) = []"
    show "a - b = {}"
    proof (rule ccontr)
      assume "a - b \<noteq> {}"
      then obtain k where k: "k \<in> a - b" by auto
      then have "k \<in> set (sorted_list_of_set (a - b))" using fin by simp
      moreover have "missing_index_line si k \<noteq> []"
        using missing_index_line_single [of k si] k by (auto simp: a_def)
      ultimately show False using e by auto
    qed
  next
    assume h: "a - b = {}"
    show "concat (map (missing_index_line si) (sorted_list_of_set (a - b))) = []"
      unfolding h by simp
  qed
  have e1: "map f (sorted_list_of_set (set xs - set ys)) = [] \<longleftrightarrow> set xs - set ys = {}"
    for f :: "'x::linorder \<Rightarrow> message" and xs ys
    by (rule map_sorted_list_of_set_empty_iff) simp
  have e2: "map ExtraIndex (sorted_list_of_set (b - a)) = [] \<longleftrightarrow> b - a = {}"
    by (rule map_sorted_list_of_set_empty_iff) (simp add: fin)
  have e3: "map (MissingConstraint \<circ> snd)
              (sorted_list_of_set
                 ((\<lambda>c. (snd (snd (snd c)), fst c, fst (snd c), fst (snd (snd c)))) `
                  (set sc - set tc))) = [] \<longleftrightarrow> set sc - set tc = {}"
    by (subst map_sorted_list_of_set_empty_iff) (simp_all del: Diff_eq_empty_iff)
  have "filter finding (fst (compare_databases (Some s) (Some t))) = [] \<longleftrightarrow>
        (set st - set tt = {} \<and> set tt - set st = {}) \<and>
        (set sv - set tv = {} \<and> set tv - set sv = {}) \<and>
        (set sp - set tp = {} \<and> set tp - set sp = {}) \<and>
        (set sf - set tf = {} \<and> set tf - set sf = {}) \<and>
        (a - b = {} \<and> b - a = {}) \<and> (set sc - set tc = {} \<and> set tc - set sc = {})"
    unfolding findings_unfiltered [OF assms] a_def [symmetric] b_def [symmetric]
    by (simp only: append_is_Nil_conv e1 e2 e3 lines conj_assoc)
  also have "\<dots> \<longleftrightarrow> set st = set tt \<and> set sv = set tv \<and> set sp = set tp \<and> set sf = set tf \<and>
        a = b \<and> set sc = set tc"
    by auto
  finally show ?thesis
    unfolding unfiltered_verdict [OF assms] a_def [symmetric] b_def [symmetric]
    by simp
qed

lemma unfiltered_self_comparison:
  assumes "get_tables a = Inr tables" and "get_views a = Inr views"
    and "get_procedures a = Inr procs" and "get_functions a = Inr funcs"
    and "get_indexes a = Inr indexes" and "get_constraints a = Inr constraints"
  shows "snd (compare_databases (Some a) (Some a)) = Inr True"
    and "filter finding (fst (compare_databases (Some a) (Some a))) = []"
  using unfiltered_verdict [OF assms(1) assms(1) assms(2) assms(2) assms(3) assms(3)
      assms(4) assms(4) assms(5) assms(5) assms(6) assms(6)]
    unfiltered_fail_iff_finding [OF assms(1) assms(1) assms(2) assms(2) assms(3) assms(3)
      assms(4) assms(4) assms(5) assms(5) assms(6) assms(6)]
  by simp_all

lemma filtered_self_comparison:
  assumes "get_tables_filtered a = Inr tables" and "get_views a = Inr views"
    and "get_procedures_filtered a = Inr procs" and "get_functions_filtered a = Inr funcs"
    and "\<forall>key \<in> set tables. table_row_count a key \<noteq> None"
  shows "snd (compare_databases_filtered (Some a) (Some a)) = Inr True"
    and "filter finding (fst (compare_databases_filtered (Some a) (Some a))) = []"
proof -
  note reads = assms(1) assms(1) assms(2) assms(2) assms(3) assms(3) assms(4) assms(4)
  show v: "snd (compare_databases_filtered (Some a) (Some a)) = Inr True"
    using assms(5) by (auto simp: filtered_verdict [OF reads])
  from filtered_fail_iff_finding [OF reads v]
  show "filter finding (fst (compare_databases_filtered (Some a) (Some a))) = []"
    by simp
qed

subsection \<open>When the row counts are compared\<close>

lemma sum_row_counts:
  "sum_list (map (\<lambda>x. the (snd x)) (get_table_row_counts cursor tables)) =
   (\<Sum>key \<in> set tables. the (table_row_count cursor key))"
proof -
  let ?al = "get_table_row_counts cursor tables"
  have "distinct (map fst ?al)"
    unfolding get_table_row_counts_def by (rule distinct_keys_fold_update) simp
  then have d: "distinct ?al" by (simp add: distinct_map)
  have "sum_list (map (the \<circ> snd) ?al) = sum (the \<circ> snd) (set ?al)"
    using d by (rule sum_list_distinct_conv_sum_set)
  also have "\<dots> = sum (the \<circ> snd) ((\<lambda>k. (k, table_row_count cursor k)) ` set tables)"
    by (simp only: set_get_table_row_counts)
  also have "\<dots> = (\<Sum>key \<in> set tables. the (table_row_count cursor key))"
    by (subst sum.reindex) (auto simp: inj_on_def)
  finally show ?thesis by (simp add: o_def)
qed

lemma row_count_block_of_matching_tables:
  assumes "set st \<subseteq> set tt"
  shows "fst (compare_row_counts s t st tt {} {}) =
     Section ''[2/5] Comparing Table Row Counts...'' #
     (if \<exists>key \<in> set st. table_row_count s key \<noteq> table_row_count t key then
        RowCountDiffCount
          (length (filter (\<lambda>key. table_row_count s key \<noteq> table_row_count t key) st)) #
        map (\<lambda>key. RowCountDiff key (table_row_count s key) (table_row_count t key))
          (filter (\<lambda>key. table_row_count s key \<noteq> table_row_count t key) st)
      else if \<exists>key \<in> set st. table_row_count s key = None then []
      else [RowCountsMatch (\<Sum>key \<in> set st. the (table_row_count s key))])"
  by (auto simp: fst_compare_row_counts row_count_diffs_of_matching_tables [OF assms] Let_def
        py_sum_row_counts sum_row_counts filter_empty_conv o_def)

text \<open>
  C1. In the filtered comparison, once both table lists are read, the row counts are
  compared exactly when \<^verbatim>\<open>missing_tables\<close> and \<^verbatim>\<open>extra_tables\<close> are both
  empty. If one of them is not empty, the block prints the line that it is skipped and
  nothing else, so no row-count mismatch is recorded. If both are empty, the block prints
  its heading and then the outcome of comparing the two counts of every source table: the
  number of tables whose counts are unequal and one line for each of them, or, when all
  counts are equal, the line with the total of the source counts (nothing more is printed
  when a count is missing on both sides, see C10).
\<close>

theorem row_counts_attempted_iff_tables_match:
  assumes "get_tables_filtered source_cursor = Inr source_tables"
    and "get_tables_filtered target_cursor = Inr target_tables"
    and "compare_lists source_tables target_tables ''table'' = (missing_tables, extra_tables)"
  shows "(Section ''[2/5] Comparing Table Row Counts...'' \<in>
            set (fst (compare_databases_filtered (Some source_cursor) (Some target_cursor)))) =
           (missing_tables = {} \<and> extra_tables = {}) \<and>
         (RowCountSkipped \<in>
            set (fst (compare_databases_filtered (Some source_cursor) (Some target_cursor)))) =
           (missing_tables \<noteq> {} \<or> extra_tables \<noteq> {}) \<and>
         (missing_tables \<noteq> {} \<or> extra_tables \<noteq> {} \<longrightarrow>
            filter row_count_line
              (fst (compare_databases_filtered (Some source_cursor) (Some target_cursor))) =
            [RowCountSkipped]) \<and>
         (missing_tables = {} \<and> extra_tables = {} \<longrightarrow>
            filter row_count_line
              (fst (compare_databases_filtered (Some source_cursor) (Some target_cursor))) =
            Section ''[2/5] Comparing Table Row Counts...'' #
            (if \<exists>key \<in> set source_tables.
                  table_row_count source_cursor key \<noteq> table_row_count target_cursor key
             then
               RowCountDiffCount
                 (length (filter (\<lambda>key. table_row_count source_cursor key \<noteq>
                                          table_row_count target_cursor key) source_tables)) #
               map (\<lambda>key. RowCountDiff key (table_row_count source_cursor key)
                            (table_row_count target_cursor key))
                 (filter (\<lambda>key. table_row_count source_cursor key \<noteq>
                                  table_row_count target_cursor key) source_tables)
             else if \<exists>key \<in> set source_tables. table_row_count source_cursor key = None
             then []
             else [RowCountsMatch
                     (\<Sum>key \<in> set source_tables. the (table_row_count source_cursor key))]))"
proof -
  let ?log = "fst (compare_databases_filtered (Some source_cursor) (Some target_cursor))"
  let ?block = "fst (compare_row_counts source_cursor target_cursor source_tables target_tables
                       missing_tables extra_tables)"
  have sets: "missing_tables = set source_tables - set target_tables"
             "extra_tables = set target_tables - set source_tables"
    using assms(3) by (auto simp: compare_lists_def Let_def)
  have lines: "filter row_count_line ?log = ?block"
    using filter_row_count_line_filtered_log [OF assms(1,2)] by (simp add: sets)
  have mem: "m \<in> set ?log \<longleftrightarrow> m \<in> set ?block" if "row_count_line m" for m
  proof -
    have "m \<in> set ?log \<longleftrightarrow> m \<in> set (filter row_count_line ?log)"
      using that by simp
    then show ?thesis by (simp only: lines)
  qed
  have skipped: "RowCountSkipped \<in> set ?block \<longleftrightarrow> missing_tables \<noteq> {} \<or> extra_tables \<noteq> {}"
    by (auto simp: fst_compare_row_counts Let_def split: sum.splits)
  have attempted: "Section ''[2/5] Comparing Table Row Counts...'' \<in> set ?block \<longleftrightarrow>
                   missing_tables = {} \<and> extra_tables = {}"
    by (auto simp: fst_compare_row_counts)
  have only: "missing_tables \<noteq> {} \<or> extra_tables \<noteq> {} \<Longrightarrow> ?block = [RowCountSkipped]"
    by (auto simp: fst_compare_row_counts)
  have compared: "filter row_count_line ?log =
            Section ''[2/5] Comparing Table Row Counts...'' #
            (if \<exists>key \<in> set source_tables.
                  table_row_count source_cursor key \<noteq> table_row_count target_cursor key
             then
               RowCountDiffCount
                 (length (filter (\<lambda>key. table_row_count source_cursor key \<noteq>
                                          table_row_count target_cursor key) source_tables)) #
               map (\<lambda>key. RowCountDiff key (table_row_count source_cursor key)
                            (table_row_count target_cursor key))
                 (filter (\<lambda>key. table_row_count source_cursor key \<noteq>
                                  table_row_count target_cursor key) source_tables)
             else if \<exists>key \<in> set source_tables. table_row_count source_cursor key = None
             then []
             else [RowCountsMatch
                     (\<Sum>key \<in> set source_tables. the (table_row_count source_cursor key))])"
    if m: "missing_tables = {} \<and> extra_tables = {}"
  proof -
    from m sets have "set source_tables \<subseteq> set target_tables" by auto
    from row_count_block_of_matching_tables [OF this] m show ?thesis
      unfolding lines by simp
  qed
  show ?thesis
    using mem [of RowCountSkipped] mem [of "Section ''[2/5] Comparing Table Row Counts...''"]
      skipped attempted only lines compared
    by (intro conjI impI) simp_all
qed

theorem row_counts_attempted_iff_tables_match_witness:
  "filter row_count_line
     (fst (compare_databases_filtered (Some users_and_orders) (Some (users_only (Inr 100))))) =
   [RowCountSkipped] \<and>
   filter row_count_line
     (fst (compare_databases_filtered (Some (users_only (Inr 100))) (Some (users_only (Inr 99))))) =
   [Section ''[2/5] Comparing Table Row Counts...'', RowCountDiffCount 1,
    RowCountDiff (''dbo'', ''Users'') (Some 100) (Some 99)] \<and>
   filter row_count_line
     (fst (compare_databases_filtered (Some (users_only (Inr 100))) (Some (users_only (Inr 100))))) =
   [Section ''[2/5] Comparing Table Row Counts...'', RowCountsMatch 100]"
proof -
  have s: "get_tables_filtered users_and_orders = Inr [(''dbo'', ''Orders''), (''dbo'', ''Users'')]"
    by (simp add: get_tables_filtered_def fetch_def users_and_orders_def empty_catalog_def
          EXCLUDED_TABLES_def)
  have t: "get_tables_filtered (users_only c) = Inr [(''dbo'', ''Users'')]" for c
    by (simp add: get_tables_filtered_def fetch_def users_only_def empty_catalog_def
          EXCLUDED_TABLES_def)
  have d: "compare_lists [(''dbo'', ''Orders''), (''dbo'', ''Users'')] [(''dbo'', ''Users'')] ''table'' =
           ({(''dbo'', ''Orders'')}, {})"
    by (auto simp: compare_lists_def Let_def)
  have e: "compare_lists [(''dbo'', ''Users'')] [(''dbo'', ''Users'')] ''table'' = ({}, {})"
    by (auto simp: compare_lists_def Let_def)
  have c: "table_row_count (users_only (Inr n)) key = Some n" for n key
    by (simp add: table_row_count_def users_only_def)
  show ?thesis
    using row_counts_attempted_iff_tables_match [OF s t d, of "Inr 100"]
      row_counts_attempted_iff_tables_match [OF t t e, of "Inr 100" "Inr 99"]
      row_counts_attempted_iff_tables_match [OF t t e, of "Inr 100" "Inr 100"]
    by (simp add: c)
qed


subsection \<open>The diagram procedure and a count that is missing\<close>

text \<open>
  C4. The claim is that the filtered comparison yields Pass whenever the source has the
  procedure \<^verbatim>\<open>sp_creatediagram\<close> and the target does not. Let the target be the
  source without that procedure, and let the count query of one application table raise
  (on both sides, as the two catalogs are otherwise the same). The excluded procedure is
  dropped by the reader, the table lists match and no mismatch is collected; then
  \<^verbatim>\<open>sum(source_counts.values())\<close> raises \<^verbatim>\<open>TypeError\<close> and neither
  \<^verbatim>\<open>compare_databases\<close> nor \<^verbatim>\<open>main\<close> returns a verdict.
\<close>

theorem diagram_procedure_with_null_count:
  assumes "tables_query d = Inr tables"
    and "procedures_query d = Inr procs"
    and "(schema, ''sp_creatediagram'') \<in> set procs"
    and "key \<in> set tables"
    and "snd key \<notin> EXCLUDED_TABLES"
    and "count_query d key = Inl e"
  shows "snd (compare_databases_filtered (Some d)
           (Some (d\<lparr>procedures_query := Inr (removeAll (schema, ''sp_creatediagram'') procs)\<rparr>))) =
         Inl TypeError \<and>
         main_filtered (Some d)
           (Some (d\<lparr>procedures_query := Inr (removeAll (schema, ''sp_creatediagram'') procs)\<rparr>)) =
         Inl TypeError"
proof -
  let ?t = "d\<lparr>procedures_query := Inr (removeAll (schema, ''sp_creatediagram'') procs)\<rparr>"
  define st where "st = filter (\<lambda>row. snd row \<notin> EXCLUDED_TABLES) tables"
  have reads: "get_tables_filtered d = Inr st" "get_tables_filtered ?t = Inr st"
    by (simp_all add: get_tables_filtered_def fetch_def assms(1) st_def)
  have same: "\<forall>k \<in> set st. table_row_count d k = table_row_count ?t k"
    by (simp add: table_row_count_def)
  have k: "key \<in> set st"
    using assms(4,5) by (simp add: st_def)
  have n: "table_row_count d key = None"
    using assms(6) by (simp add: table_row_count_def)
  from null_counts_raise [OF reads refl same k n]
  show ?thesis by (simp add: main_filtered_def)
qed

theorem diagram_procedure_with_null_count_witness:
  "compare_databases_filtered
     (Some (with_diagram_procedure (users_only (Inl DatabaseError))))
     (Some (users_only (Inl DatabaseError))) =
   ([Connected Source, Connected Target, Section ''[1/5] Comparing Application Tables...'',
     AllMatch Table 1, Section ''[2/5] Comparing Table Row Counts...''],
    Inl TypeError) \<and>
   main_filtered (Some (with_diagram_procedure (users_only (Inl DatabaseError))))
     (Some (users_only (Inl DatabaseError))) = Inl TypeError"
proof -
  let ?d = "with_diagram_procedure (users_only (Inl DatabaseError))"
  have 1: "tables_query ?d = Inr [(''dbo'', ''Users'')]"
    by (simp add: with_diagram_procedure_def users_only_def)
  have 2: "procedures_query ?d = Inr [(''dbo'', ''sp_creatediagram'')]"
    by (simp add: with_diagram_procedure_def)
  have 3: "(''dbo'', ''sp_creatediagram'') \<in> set [(''dbo'', ''sp_creatediagram'')]"
    by simp
  have 4: "(''dbo'', ''Users'') \<in> set [(''dbo'', ''Users'')]"
    by simp
  have 5: "snd (''dbo'', ''Users'') \<notin> EXCLUDED_TABLES"
    by (simp add: EXCLUDED_TABLES_def)
  have 6: "count_query ?d (''dbo'', ''Users'') = Inl DatabaseError"
    by (simp add: with_diagram_procedure_def users_only_def)
  have t: "?d\<lparr>procedures_query := Inr (removeAll (''dbo'', ''sp_creatediagram'')
             [(''dbo'', ''sp_creatediagram'')])\<rparr> = users_only (Inl DatabaseError)"
    by (simp add: with_diagram_procedure_def users_only_def empty_catalog_def)
  have l: "fst (compare_databases_filtered (Some ?d) (Some (users_only (Inl DatabaseError)))) =
        [Connected Source, Connected Target, Section ''[1/5] Comparing Application Tables...'',
         AllMatch Table 1, Section ''[2/5] Comparing Table Row Counts...'']"
    by code_simp
  from diagram_procedure_with_null_count [OF 1 2 3 4 5 6] l show ?thesis
    unfolding t by (simp add: prod_eq_iff)
qed

end
